theory Spec2Isabelle
  imports Main "HOL-Library.Word" "HOL-Library.Multiset" "HOL-Library.Sublist"
begin

section \<open>Data model\<close>

text \<open>
  The package \<open>winroute\<close> joins the rows of the Windows routing table with the adapters
  that own them. The types below follow \<open>route.go\<close> and the two files next to it that
  declare \<open>Interface\<close>, \<open>Route\<close> and \<open>interfaceCache\<close>.

  \<open>winipcfg.LUID\<close> is a \<open>uint64\<close>; interface indices, metrics, protocol and origin tags
  are \<open>uint32\<close>. \<open>netip.Addr\<close> and \<open>netip.Prefix\<close> are only ever compared and passed on.
\<close>

type_synonym LUID = "64 word"

datatype Addr = Addr4 "32 word" | Addr6 "128 word"

datatype Prefix = PrefixFrom Addr nat

record Interface =
  Index :: "32 word"
  LUID :: LUID
  Alias :: string
  Description :: string

record Route =
  Destination :: Prefix
  NextHop :: Addr
  Interface :: Interface
  Metric :: "32 word"
  Protocol :: "32 word"
  Origin :: "32 word"

text \<open>
  What the package reads of \<open>winipcfg.IPAdapterAddresses\<close>: the fields \<open>IfIndex\<close> and
  \<open>LUID\<close> and the results of the methods \<open>FriendlyName()\<close> and \<open>Description()\<close>.
\<close>

record IPAdapterAddresses =
  IfIndex :: "32 word"
  AdapterLUID :: LUID
  FriendlyName :: string
  AdapterDescription :: string

text \<open>
  What the package reads of \<open>winipcfg.MibIPforwardRow2\<close>: \<open>InterfaceLUID\<close>, the results
  of \<open>DestinationPrefix.Prefix()\<close> and \<open>NextHop.Addr()\<close>, and \<open>Metric\<close>, \<open>Protocol\<close>,
  \<open>Origin\<close>.
\<close>

record MibIPforwardRow2 =
  InterfaceLUID :: LUID
  DestinationPrefix :: Prefix
  RowNextHop :: Addr
  RowMetric :: "32 word"
  RowProtocol :: "32 word"
  RowOrigin :: "32 word"

subsection \<open>Errors\<close>

text \<open>
  A Go \<open>error\<close> is a value. \<open>Errno\<close> is a \<open>windows.Errno\<close> coming from the system,
  \<open>ErrNotFound\<close> and \<open>ErrAmbiguousMatch\<close> are the package's sentinels, and
  \<open>Errorf fmt args w\<close> is \<open>fmt.Errorf(fmt, args..., w)\<close>, with \<open>w\<close> the error under
  \<open>%w\<close> when the format has one. \<open>NumError\<close> is the error of \<open>strconv.ParseUint\<close>.
\<close>

datatype fmt_arg = ArgPrefix Prefix | ArgString string | ArgType string

datatype error =
    Errno "32 word"
  | ErrNotFound
  | ErrAmbiguousMatch
  | NumErrSyntax
  | NumErrRange
  | Errorf string "fmt_arg list" "error option"

definition ERROR_OBJECT_ALREADY_EXISTS :: error where
  "ERROR_OBJECT_ALREADY_EXISTS = Errno 5010"

definition ERROR_NOT_FOUND :: error where
  "ERROR_NOT_FOUND = Errno 1168"

text \<open>\<open>errors.Is\<close>: the target is the error itself or is found down the \<open>%w\<close> chain.\<close>

fun errors_Is :: "error \<Rightarrow> error \<Rightarrow> bool" where
  "errors_Is (Errorf f args (Some w)) target =
     (Errorf f args (Some w) = target \<or> errors_Is w target)"
| "errors_Is e target = (e = target)"

subsection \<open>The environment: winipcfg and the string functions\<close>

text \<open>
  The package calls the operating system through \<open>winipcfg\<close>. Those functions are not
  part of the repository, so they are parameters: \<open>'s\<close> is the state of the system,
  the three queries read it and the two mutations return the new state.
  \<open>strings.ToLower\<close> and \<open>strings.EqualFold\<close> (Unicode case mapping) are parameters
  too. Everything proved below holds for every environment.
\<close>

record 's env =
  GetAdaptersAddresses :: "'s \<Rightarrow> error + IPAdapterAddresses list"
  GetIPForwardTable2 :: "'s \<Rightarrow> error + MibIPforwardRow2 list"
  LUIDFromIndex :: "32 word \<Rightarrow> 's \<Rightarrow> error + LUID"
  LUID_AddRoute :: "LUID \<Rightarrow> Prefix \<Rightarrow> Addr \<Rightarrow> 32 word \<Rightarrow> 's \<Rightarrow> error option \<times> 's"
  LUID_DeleteRoute :: "LUID \<Rightarrow> Prefix \<Rightarrow> Addr \<Rightarrow> 's \<Rightarrow> error option \<times> 's"
  ToLower :: "string \<Rightarrow> string"
  EqualFold :: "string \<Rightarrow> string \<Rightarrow> bool"

text \<open>
  Every call to the system is recorded: a \<open>world\<close> is the state of the system together
  with the calls made so far, oldest first.
\<close>

datatype os_call =
    Call_GetAdaptersAddresses
  | Call_GetIPForwardTable2
  | Call_LUIDFromIndex "32 word"
  | Call_AddRoute LUID Prefix Addr "32 word"
  | Call_DeleteRoute LUID Prefix Addr

record 's world =
  os :: 's
  calls :: "os_call list"

definition sys_GetAdaptersAddresses ::
  "'s env \<Rightarrow> 's world \<Rightarrow> (error + IPAdapterAddresses list) \<times> 's world" where
  "sys_GetAdaptersAddresses X w =
     (GetAdaptersAddresses X (os w), w\<lparr>calls := calls w @ [Call_GetAdaptersAddresses]\<rparr>)"

definition sys_GetIPForwardTable2 ::
  "'s env \<Rightarrow> 's world \<Rightarrow> (error + MibIPforwardRow2 list) \<times> 's world" where
  "sys_GetIPForwardTable2 X w =
     (GetIPForwardTable2 X (os w), w\<lparr>calls := calls w @ [Call_GetIPForwardTable2]\<rparr>)"

definition sys_LUIDFromIndex ::
  "'s env \<Rightarrow> 32 word \<Rightarrow> 's world \<Rightarrow> (error + LUID) \<times> 's world" where
  "sys_LUIDFromIndex X i w =
     (LUIDFromIndex X i (os w), w\<lparr>calls := calls w @ [Call_LUIDFromIndex i]\<rparr>)"

definition sys_AddRoute ::
  "'s env \<Rightarrow> LUID \<Rightarrow> Prefix \<Rightarrow> Addr \<Rightarrow> 32 word \<Rightarrow> 's world \<Rightarrow> error option \<times> 's world" where
  "sys_AddRoute X l d n m w =
     (case LUID_AddRoute X l d n m (os w) of
        (r, s') \<Rightarrow> (r, \<lparr>os = s', calls = calls w @ [Call_AddRoute l d n m]\<rparr>))"

definition sys_DeleteRoute ::
  "'s env \<Rightarrow> LUID \<Rightarrow> Prefix \<Rightarrow> Addr \<Rightarrow> 's world \<Rightarrow> error option \<times> 's world" where
  "sys_DeleteRoute X l d n w =
     (case LUID_DeleteRoute X l d n (os w) of
        (r, s') \<Rightarrow> (r, \<lparr>os = s', calls = calls w @ [Call_DeleteRoute l d n]\<rparr>))"

section \<open>The interface cache\<close>

record interfaceCache =
  byLUID :: "LUID \<rightharpoonup> Interface"
  byIndex :: "32 word \<rightharpoonup> Interface"
  byAlias :: "string \<rightharpoonup> Interface"

text \<open>The \<open>Interface\<close> literal that the loop of \<open>newInterfaceCache\<close> builds.\<close>

definition adapter_iface :: "IPAdapterAddresses \<Rightarrow> Interface" where
  "adapter_iface adapter =
     \<lparr>Index = IfIndex adapter, LUID = AdapterLUID adapter,
      Alias = FriendlyName adapter, Description = AdapterDescription adapter\<rparr>"

text \<open>
  The body of that loop, for one adapter: the LUID and index entries are overwritten,
  the alias entry is written only when the lowercased alias has none yet.
\<close>

definition cache_adapter ::
  "'s env \<Rightarrow> IPAdapterAddresses \<Rightarrow> interfaceCache \<Rightarrow> interfaceCache" where
  "cache_adapter X adapter cache =
     (let iface = adapter_iface adapter;
          c1 = cache\<lparr>byLUID := (byLUID cache)(LUID iface \<mapsto> iface)\<rparr>;
          c2 = c1\<lparr>byIndex := (byIndex c1)(Index iface \<mapsto> iface)\<rparr>
      in (case byAlias c2 (ToLower X (Alias iface)) of
            None \<Rightarrow> c2\<lparr>byAlias := (byAlias c2)(ToLower X (Alias iface) \<mapsto> iface)\<rparr>
          | Some _ \<Rightarrow> c2))"

fun cache_adapters ::
  "'s env \<Rightarrow> IPAdapterAddresses list \<Rightarrow> interfaceCache \<Rightarrow> interfaceCache" where
  "cache_adapters X [] cache = cache"
| "cache_adapters X (adapter # adapters) cache =
     cache_adapters X adapters (cache_adapter X adapter cache)"

definition empty_cache :: interfaceCache where
  "empty_cache = \<lparr>byLUID = Map.empty, byIndex = Map.empty, byAlias = Map.empty\<rparr>"

definition newInterfaceCache ::
  "'s env \<Rightarrow> 's world \<Rightarrow> (error + interfaceCache) \<times> 's world" where
  "newInterfaceCache X w =
     (case sys_GetAdaptersAddresses X w of
        (Inl err, w1) \<Rightarrow>
          (Inl (Errorf ''failed to get adapters addresses: %w'' [] (Some err)), w1)
      | (Inr adapters, w1) \<Rightarrow> (Inr (cache_adapters X adapters empty_cache), w1))"

subsection \<open>strconv.ParseUint(s, 10, 32)\<close>

text \<open>
  The standard library's loop for base 10 and bit size 32: the empty string and any byte
  that is not a decimal digit are syntax errors, a value above \<open>2^32 - 1\<close> is a range
  error, and the bytes are read left to right. With these arguments there is no sign, no
  base prefix and no underscore. The running value never exceeds \<open>2^32 - 1\<close>, so the
  64-bit arithmetic of the original cannot wrap and \<open>nat\<close> computes the same.
\<close>

definition is_digit :: "char \<Rightarrow> bool" where
  "is_digit c = ((48::nat) \<le> of_char c \<and> of_char c \<le> (57::nat))"

definition digit_of :: "char \<Rightarrow> nat" where
  "digit_of c = of_char c - 48"

definition maxVal :: nat where
  "maxVal = 2 ^ 32 - 1"

fun parse_digits :: "string \<Rightarrow> nat \<Rightarrow> error + nat" where
  "parse_digits [] n = Inr n"
| "parse_digits (c # cs) n =
     (if \<not> is_digit c then Inl NumErrSyntax
      else (let n1 = n * 10 + digit_of c
            in if n1 > maxVal then Inl NumErrRange else parse_digits cs n1))"

definition ParseUint_10_32 :: "string \<Rightarrow> error + nat" where
  "ParseUint_10_32 s = (if s = [] then Inl NumErrSyntax else parse_digits s 0)"

definition findInterface ::
  "'s env \<Rightarrow> interfaceCache \<Rightarrow> string \<Rightarrow> error + Interface" where
  "findInterface X c identifier =
     (let by_alias =
            (case byAlias c (ToLower X identifier) of
               Some iface \<Rightarrow> Inr iface
             | None \<Rightarrow> Inl (Errorf ''interface '%s' not found: %w''
                             [ArgString identifier] (Some ErrNotFound)))
      in (case ParseUint_10_32 identifier of
            Inr index \<Rightarrow>
              (case byIndex c (of_nat index) of
                 Some iface \<Rightarrow> Inr iface
               | None \<Rightarrow> by_alias)
          | Inl err \<Rightarrow> by_alias))"

section \<open>GetRoutes\<close>

text \<open>
  A \<open>FilterOption\<close> is a Go closure \<open>func(r *Route) bool\<close>. The model takes it as a
  total function that only reads the route, which is what the four constructors of the
  package build.
\<close>

type_synonym FilterOption = "Route \<Rightarrow> bool"

definition WithDestinationPrefix :: "Prefix \<Rightarrow> FilterOption" where
  "WithDestinationPrefix prefix' = (\<lambda>r. Destination r = prefix')"

definition WithInterfaceIndex :: "32 word \<Rightarrow> FilterOption" where
  "WithInterfaceIndex index = (\<lambda>r. Index (Interface r) = index)"

definition WithInterfaceAlias :: "'s env \<Rightarrow> string \<Rightarrow> FilterOption" where
  "WithInterfaceAlias X alias = (\<lambda>r. EqualFold X (Alias (Interface r)) alias)"

definition WithMetric :: "32 word \<Rightarrow> FilterOption" where
  "WithMetric metric = (\<lambda>r. Metric r = metric)"

text \<open>The inner loop: \<open>matches\<close> starts true and the first failing filter breaks.\<close>

fun apply_filters :: "FilterOption list \<Rightarrow> Route \<Rightarrow> bool" where
  "apply_filters [] route = True"
| "apply_filters (filter' # filters) route =
     (if \<not> filter' route then False else apply_filters filters route)"

definition enrich :: "MibIPforwardRow2 \<Rightarrow> Interface \<Rightarrow> Route" where
  "enrich baseRoute iface =
     \<lparr>Destination = DestinationPrefix baseRoute, NextHop = RowNextHop baseRoute,
      Interface = iface, Metric = RowMetric baseRoute,
      Protocol = RowProtocol baseRoute, Origin = RowOrigin baseRoute\<rparr>"

text \<open>
  The outer loop over \<open>baseRoutes\<close>; the last argument is the slice \<open>routes\<close> built so
  far. A row whose LUID is not in \<open>byLUID\<close> takes the \<open>continue\<close>.
\<close>

fun aggregate ::
  "interfaceCache \<Rightarrow> FilterOption list \<Rightarrow> MibIPforwardRow2 list \<Rightarrow> Route list \<Rightarrow> Route list"
  where
  "aggregate cache filters [] routes = routes"
| "aggregate cache filters (baseRoute # rest) routes =
     (case byLUID cache (InterfaceLUID baseRoute) of
        None \<Rightarrow> aggregate cache filters rest routes
      | Some iface \<Rightarrow>
          (let route = enrich baseRoute iface
           in if apply_filters filters route
              then aggregate cache filters rest (routes @ [route])
              else aggregate cache filters rest routes))"

definition GetRoutes ::
  "'s env \<Rightarrow> FilterOption list \<Rightarrow> 's world \<Rightarrow> (error + Route list) \<times> 's world" where
  "GetRoutes X filters w =
     (case newInterfaceCache X w of
        (Inl err, w1) \<Rightarrow>
          (Inl (Errorf ''failed to build interface cache: %w'' [] (Some err)), w1)
      | (Inr cache, w1) \<Rightarrow>
          (case sys_GetIPForwardTable2 X w1 of
             (Inl err, w2) \<Rightarrow>
               (Inl (Errorf ''failed to get base routing table: %w'' [] (Some err)), w2)
           | (Inr baseRoutes, w2) \<Rightarrow> (Inr (aggregate cache filters baseRoutes []), w2)))"

section \<open>AddRoute and DeleteRoute\<close>

definition AddRoute ::
  "'s env \<Rightarrow> Prefix \<Rightarrow> Addr \<Rightarrow> 32 word \<Rightarrow> 32 word \<Rightarrow> 's world \<Rightarrow> error option \<times> 's world"
  where
  "AddRoute X destination nextHop ifaceIndex metric w =
     (case sys_LUIDFromIndex X ifaceIndex w of
        (Inl err, w1) \<Rightarrow>
          (Some (Errorf ''failed to convert interface index to LUID: %w'' [] (Some err)), w1)
      | (Inr luid, w1) \<Rightarrow>
          (case sys_AddRoute X luid destination nextHop metric w1 of
             (Some err, w2) \<Rightarrow>
               (if errors_Is err ERROR_OBJECT_ALREADY_EXISTS
                then (Some (Errorf ''route to %s already exists: %w''
                              [ArgPrefix destination] (Some err)), w2)
                else (Some (Errorf ''failed to create route: %w'' [] (Some err)), w2))
           | (None, w2) \<Rightarrow> (None, w2)))"

definition DeleteRoute ::
  "'s env \<Rightarrow> Prefix \<Rightarrow> Addr \<Rightarrow> 32 word \<Rightarrow> 's world \<Rightarrow> error option \<times> 's world" where
  "DeleteRoute X destination nextHop ifaceIndex w =
     (case sys_LUIDFromIndex X ifaceIndex w of
        (Inl err, w1) \<Rightarrow>
          (Some (Errorf ''failed to convert interface index to LUID: %w'' [] (Some err)), w1)
      | (Inr luid, w1) \<Rightarrow>
          (case sys_DeleteRoute X luid destination nextHop w1 of
             (Some err, w2) \<Rightarrow>
               (if errors_Is err ERROR_NOT_FOUND
                then (Some (Errorf ''route to %s not found: %w''
                              [ArgPrefix destination] (Some ErrNotFound)), w2)
                else (Some (Errorf ''failed to delete route: %w'' [] (Some err)), w2))
           | (None, w2) \<Rightarrow> (None, w2)))"

section \<open>DeleteRoutes\<close>

text \<open>
  \<open>ErrorAction\<close> is a Go \<open>int\<close> with the two constants \<open>ErrorActionContinue = 0\<close> and
  \<open>ErrorActionStop = 1\<close>; any other value of the type can be passed as well.
\<close>

type_synonym ErrorAction = int

definition ErrorActionContinue :: ErrorAction where
  "ErrorActionContinue = 0"

definition ErrorActionStop :: ErrorAction where
  "ErrorActionStop = 1"

text \<open>
  An element of the variadic \<open>opts ...any\<close>, by its dynamic type: a \<open>FilterOption\<close>, an
  \<open>ErrorAction\<close>, or a value of any other type, of which only the name of the type
  (what \<open>%T\<close> prints) is used.
\<close>

datatype opt = OptFilter FilterOption | OptErrorAction ErrorAction | OptOther string

text \<open>
  The loop of \<open>extractRouteParameters\<close>, with the variables \<open>filters\<close> and
  \<open>errorAction\<close> as arguments.
\<close>

fun extract_loop ::
  "opt list \<Rightarrow> FilterOption list \<Rightarrow> ErrorAction \<Rightarrow> error + (FilterOption list \<times> ErrorAction)"
  where
  "extract_loop [] filters errorAction = Inr (filters, errorAction)"
| "extract_loop (OptFilter o' # opts) filters errorAction =
     extract_loop opts (filters @ [o']) errorAction"
| "extract_loop (OptErrorAction o' # opts) filters errorAction =
     extract_loop opts filters o'"
| "extract_loop (OptOther t # opts) filters errorAction =
     Inl (Errorf ''unsupported option type: %T'' [ArgType t] None)"

definition extractRouteParameters ::
  "opt list \<Rightarrow> error + (FilterOption list \<times> ErrorAction)" where
  "extractRouteParameters opts = extract_loop opts [] ErrorActionContinue"

definition Route_Delete :: "'s env \<Rightarrow> Route \<Rightarrow> 's world \<Rightarrow> error option \<times> 's world" where
  "Route_Delete X r w = sys_DeleteRoute X (LUID (Interface r)) (Destination r) (NextHop r) w"

definition wrap_delete_error :: "Route \<Rightarrow> error \<Rightarrow> error" where
  "wrap_delete_error route delErr =
     Errorf ''failed to delete route (dest: %s, iface: %s): %w''
       [ArgPrefix (Destination route), ArgString (Alias (Interface route))] (Some delErr)"

text \<open>
  The loop over \<open>routes\<close>, with the named result \<open>partialErrs\<close> as an argument. The
  result is the pair \<open>(partialErrs, err)\<close> that \<open>DeleteRoutes\<close> returns (a nil slice
  is the empty list) and the world after the last call.
\<close>

fun delete_loop ::
  "'s env \<Rightarrow> ErrorAction \<Rightarrow> Route list \<Rightarrow> error list \<Rightarrow> 's world
     \<Rightarrow> (error list \<times> error option) \<times> 's world" where
  "delete_loop X errorAction [] partialErrs w = ((partialErrs, None), w)"
| "delete_loop X errorAction (route # rest) partialErrs w =
     (case Route_Delete X route w of
        (Some delErr, w1) \<Rightarrow>
          (let wrappedErr = wrap_delete_error route delErr
           in if errorAction = ErrorActionStop then (([], Some wrappedErr), w1)
              else delete_loop X errorAction rest (partialErrs @ [wrappedErr]) w1)
      | (None, w1) \<Rightarrow> delete_loop X errorAction rest partialErrs w1)"

definition DeleteRoutes ::
  "'s env \<Rightarrow> opt list \<Rightarrow> 's world \<Rightarrow> (error list \<times> error option) \<times> 's world" where
  "DeleteRoutes X opts w =
     (case extractRouteParameters opts of
        Inl err \<Rightarrow> (([], Some err), w)
      | Inr (filters, errorAction) \<Rightarrow>
          (case GetRoutes X filters w of
             (Inl err, w1) \<Rightarrow>
               (([], Some (Errorf ''failed to find routes for deletion: %w'' [] (Some err))), w1)
           | (Inr routes, w1) \<Rightarrow>
               (if length routes = 0 then (([], None), w1)
                else delete_loop X errorAction routes [] w1)))"

section \<open>Reference notions used in the statements\<close>

text \<open>The cache that an operation builds from the adapters the system reports.\<close>

definition directory :: "'s env \<Rightarrow> IPAdapterAddresses list \<Rightarrow> interfaceCache" where
  "directory X adapters = cache_adapters X adapters empty_cache"

text \<open>
  A row resolves when its LUID has an entry in the directory; the enriched route of a
  resolvable row is the row joined with that entry.
\<close>

definition resolve_row :: "interfaceCache \<Rightarrow> MibIPforwardRow2 \<Rightarrow> Route option" where
  "resolve_row cache row = map_option (enrich row) (byLUID cache (InterfaceLUID row))"

definition resolvable_routes :: "interfaceCache \<Rightarrow> MibIPforwardRow2 list \<Rightarrow> Route list" where
  "resolvable_routes cache rows = List.map_filter (resolve_row cache) rows"

definition satisfies_all :: "FilterOption list \<Rightarrow> Route \<Rightarrow> bool" where
  "satisfies_all F r = (\<forall>p \<in> set F. p r)"

text \<open>
  The rows that a listing keeps, in the order of the table: those that resolve and whose
  enriched route satisfies every predicate.
\<close>

definition kept_rows ::
  "interfaceCache \<Rightarrow> FilterOption list \<Rightarrow> MibIPforwardRow2 list \<Rightarrow> MibIPforwardRow2 list"
  where
  "kept_rows cache F rows =
     filter (\<lambda>row. case resolve_row cache row of
                      None \<Rightarrow> False
                    | Some r \<Rightarrow> satisfies_all F r) rows"

definition resolves :: "interfaceCache \<Rightarrow> MibIPforwardRow2 \<Rightarrow> bool" where
  "resolves cache row = (byLUID cache (InterfaceLUID row) \<noteq> None)"

text \<open>The number that a string of decimal digits denotes.\<close>

definition dec_value :: "string \<Rightarrow> nat" where
  "dec_value s = foldl (\<lambda>n c. n * 10 + digit_of c) 0 s"

text \<open>What the index map gives for a string, when the string parses.\<close>

definition by_number :: "interfaceCache \<Rightarrow> string \<Rightarrow> Interface option" where
  "by_number c s =
     (case ParseUint_10_32 s of Inl e \<Rightarrow> None | Inr n \<Rightarrow> byIndex c (of_nat n))"

text \<open>The options of each kind, in the order of the list.\<close>

fun opt_filters :: "opt list \<Rightarrow> FilterOption list" where
  "opt_filters [] = []"
| "opt_filters (OptFilter f # opts) = f # opt_filters opts"
| "opt_filters (x # opts) = opt_filters opts"

fun opt_actions :: "opt list \<Rightarrow> ErrorAction list" where
  "opt_actions [] = []"
| "opt_actions (OptErrorAction a # opts) = a # opt_actions opts"
| "opt_actions (x # opts) = opt_actions opts"

fun is_other :: "opt \<Rightarrow> bool" where
  "is_other (OptOther t) = True"
| "is_other x = False"

text \<open>
  Deleting the routes of a list one after the other, whatever the outcome: the outcome
  of each deletion, in order, and the world after the last one.
\<close>

fun delete_each :: "'s env \<Rightarrow> Route list \<Rightarrow> 's world \<Rightarrow> error option list \<times> 's world" where
  "delete_each X [] w = ([], w)"
| "delete_each X (r # rs) w =
     (case Route_Delete X r w of
        (res, w1) \<Rightarrow> (case delete_each X rs w1 of (ress, w2) \<Rightarrow> (res # ress, w2)))"

text \<open>The failures among the outcomes, each wrapped with the context of its route.\<close>

fun wrapped_failures :: "Route list \<Rightarrow> error option list \<Rightarrow> error list" where
  "wrapped_failures (r # rs) (Some e # outs) = wrap_delete_error r e # wrapped_failures rs outs"
| "wrapped_failures (r # rs) (None # outs) = wrapped_failures rs outs"
| "wrapped_failures rs outs = []"

definition delete_call :: "Route \<Rightarrow> os_call" where
  "delete_call r = Call_DeleteRoute (LUID (Interface r)) (Destination r) (NextHop r)"

subsection \<open>A small system to run the package on\<close>

text \<open>
  A system whose state is its routing table. The adapters are fixed; deleting a route
  that is not in the table fails with \<open>ERROR_NOT_FOUND\<close>, deleting a route of a LUID in
  \<open>locked\<close> fails with \<open>ERROR_ACCESS_DENIED\<close> (5), adding a route that is there fails with
  \<open>ERROR_OBJECT_ALREADY_EXISTS\<close>, and an index that no adapter has does not convert
  (\<open>ERROR_FILE_NOT_FOUND\<close>, 2). Case mapping is that of the ASCII letters.
\<close>

definition ascii_lower :: "string \<Rightarrow> string" where
  "ascii_lower s =
     map (\<lambda>c. if (65::nat) \<le> of_char c \<and> of_char c \<le> (90::nat)
              then char_of (of_char c + (32::nat)) else c) s"

definition same_route :: "LUID \<Rightarrow> Prefix \<Rightarrow> Addr \<Rightarrow> MibIPforwardRow2 \<Rightarrow> bool" where
  "same_route l d n row =
     (InterfaceLUID row = l \<and> DestinationPrefix row = d \<and> RowNextHop row = n)"

definition table_env ::
  "IPAdapterAddresses list \<Rightarrow> LUID list \<Rightarrow> (MibIPforwardRow2 list) env" where
  "table_env adapters locked =
     \<lparr>GetAdaptersAddresses = (\<lambda>s. Inr adapters),
      GetIPForwardTable2 = (\<lambda>s. Inr s),
      LUIDFromIndex = (\<lambda>i s. case find (\<lambda>a. IfIndex a = i) adapters of
                                None \<Rightarrow> Inl (Errno 2)
                              | Some a \<Rightarrow> Inr (AdapterLUID a)),
      LUID_AddRoute = (\<lambda>l d n m s.
         if list_ex (same_route l d n) s then (Some ERROR_OBJECT_ALREADY_EXISTS, s)
         else (None, s @ [\<lparr>InterfaceLUID = l, DestinationPrefix = d, RowNextHop = n,
                           RowMetric = m, RowProtocol = 3, RowOrigin = 0\<rparr>])),
      LUID_DeleteRoute = (\<lambda>l d n s.
         if List.member locked l then (Some (Errno 5), s)
         else if list_ex (same_route l d n) s
              then (None, filter (\<lambda>row. \<not> same_route l d n row) s)
              else (Some ERROR_NOT_FOUND, s)),
      ToLower = ascii_lower,
      EqualFold = (\<lambda>a b. ascii_lower a = ascii_lower b)\<rparr>"

definition eth0 :: IPAdapterAddresses where
  "eth0 = \<lparr>IfIndex = 7, AdapterLUID = 1, FriendlyName = ''Ethernet'',
           AdapterDescription = ''Realtek PCIe GbE Family Controller''\<rparr>"

definition eth1 :: IPAdapterAddresses where
  "eth1 = \<lparr>IfIndex = 0, AdapterLUID = 2, FriendlyName = ''ETHERNET'',
           AdapterDescription = ''Intel I210''\<rparr>"

definition tun0 :: IPAdapterAddresses where
  "tun0 = \<lparr>IfIndex = 0, AdapterLUID = 3, FriendlyName = ''42'',
           AdapterDescription = ''WireGuard Tunnel''\<rparr>"

definition net10 :: Prefix where
  "net10 = PrefixFrom (Addr4 0x0A000000) 8"

definition net192 :: Prefix where
  "net192 = PrefixFrom (Addr4 0xC0A80100) 24"

definition gw :: Addr where
  "gw = Addr4 0xC0A80101"

definition row_a :: MibIPforwardRow2 where
  "row_a = \<lparr>InterfaceLUID = 1, DestinationPrefix = net10, RowNextHop = gw,
            RowMetric = 5, RowProtocol = 3, RowOrigin = 0\<rparr>"

definition row_b :: MibIPforwardRow2 where
  "row_b = \<lparr>InterfaceLUID = 9, DestinationPrefix = net10, RowNextHop = gw,
            RowMetric = 5, RowProtocol = 3, RowOrigin = 0\<rparr>"

definition row_c :: MibIPforwardRow2 where
  "row_c = \<lparr>InterfaceLUID = 2, DestinationPrefix = net192, RowNextHop = gw,
            RowMetric = 5, RowProtocol = 3, RowOrigin = 0\<rparr>"

definition row_d :: MibIPforwardRow2 where
  "row_d = \<lparr>InterfaceLUID = 1, DestinationPrefix = net192, RowNextHop = gw,
            RowMetric = 20, RowProtocol = 3, RowOrigin = 0\<rparr>"

definition world0 :: "MibIPforwardRow2 list \<Rightarrow> (MibIPforwardRow2 list) world" where
  "world0 table = \<lparr>os = table, calls = []\<rparr>"

section \<open>Properties of the interface cache\<close>

lemma find_app:
  "find P (xs @ ys) = (case find P xs of None \<Rightarrow> find P ys | Some x \<Rightarrow> Some x)"
  by (induction xs) auto

lemma byLUID_cache_adapter:
  "byLUID (cache_adapter X a c) = (byLUID c)(AdapterLUID a \<mapsto> adapter_iface a)"
  by (simp add: cache_adapter_def Let_def adapter_iface_def split: option.splits)

lemma byIndex_cache_adapter:
  "byIndex (cache_adapter X a c) = (byIndex c)(IfIndex a \<mapsto> adapter_iface a)"
  by (simp add: cache_adapter_def Let_def adapter_iface_def split: option.splits)

lemma byAlias_cache_adapter:
  "byAlias (cache_adapter X a c) k =
     (case byAlias c k of
        Some i \<Rightarrow> Some i
      | None \<Rightarrow> if ToLower X (FriendlyName a) = k then Some (adapter_iface a) else None)"
  by (simp add: cache_adapter_def Let_def adapter_iface_def split: option.splits)

text \<open>
  After the loop, the LUID and index maps hold the last adapter with the key and the
  alias map holds the first one.
\<close>

lemma byLUID_cache_adapters:
  "byLUID (cache_adapters X as c) l =
     (case find (\<lambda>a. AdapterLUID a = l) (rev as) of
        None \<Rightarrow> byLUID c l
      | Some a \<Rightarrow> Some (adapter_iface a))"
  by (induction as arbitrary: c)
     (auto simp: find_app byLUID_cache_adapter split: option.splits)

lemma byIndex_cache_adapters:
  "byIndex (cache_adapters X as c) i =
     (case find (\<lambda>a. IfIndex a = i) (rev as) of
        None \<Rightarrow> byIndex c i
      | Some a \<Rightarrow> Some (adapter_iface a))"
  by (induction as arbitrary: c)
     (auto simp: find_app byIndex_cache_adapter split: option.splits)

lemma byAlias_cache_adapters:
  "byAlias (cache_adapters X as c) k =
     (case byAlias c k of
        Some i \<Rightarrow> Some i
      | None \<Rightarrow> map_option adapter_iface (find (\<lambda>a. ToLower X (FriendlyName a) = k) as))"
  by (induction as arbitrary: c)
     (auto simp: byAlias_cache_adapter split: option.splits)

lemma byLUID_directory:
  "byLUID (directory X as) l = map_option adapter_iface (find (\<lambda>a. AdapterLUID a = l) (rev as))"
  by (simp add: directory_def byLUID_cache_adapters empty_cache_def split: option.splits)

lemma byIndex_directory:
  "byIndex (directory X as) i = map_option adapter_iface (find (\<lambda>a. IfIndex a = i) (rev as))"
  by (simp add: directory_def byIndex_cache_adapters empty_cache_def split: option.splits)

lemma byAlias_directory:
  "byAlias (directory X as) k =
     map_option adapter_iface (find (\<lambda>a. ToLower X (FriendlyName a) = k) as)"
  by (simp add: directory_def byAlias_cache_adapters empty_cache_def)

lemma byLUID_directory_LUID:
  "byLUID (directory X as) l = Some iface \<Longrightarrow> LUID iface = l"
  by (auto simp: byLUID_directory find_Some_iff adapter_iface_def)

section \<open>Properties of GetRoutes\<close>

lemma apply_filters_iff: "apply_filters F r = satisfies_all F r"
  by (induction F) (auto simp: satisfies_all_def)

lemma aggregate_eq:
  "aggregate cache F rows acc = acc @ filter (satisfies_all F) (resolvable_routes cache rows)"
  by (induction rows arbitrary: acc)
     (auto simp: resolvable_routes_def resolve_row_def apply_filters_iff Let_def
           split: option.splits)

lemma newInterfaceCache_ok:
  "GetAdaptersAddresses X (os w) = Inr adapters \<Longrightarrow>
   newInterfaceCache X w =
     (Inr (directory X adapters), w\<lparr>calls := calls w @ [Call_GetAdaptersAddresses]\<rparr>)"
  by (simp add: newInterfaceCache_def sys_GetAdaptersAddresses_def directory_def)

lemma GetRoutes_ok:
  assumes "GetAdaptersAddresses X (os w) = Inr adapters"
    and "GetIPForwardTable2 X (os w) = Inr rows"
  shows "GetRoutes X F w =
     (Inr (filter (satisfies_all F) (resolvable_routes (directory X adapters) rows)),
      w\<lparr>calls := calls w @ [Call_GetAdaptersAddresses, Call_GetIPForwardTable2]\<rparr>)"
  using assms
  by (simp add: GetRoutes_def newInterfaceCache_ok sys_GetIPForwardTable2_def aggregate_eq)

lemma resolvable_routes_Nil: "resolvable_routes cache [] = []"
  by (simp add: resolvable_routes_def)

lemma resolvable_routes_Cons:
  "resolvable_routes cache (row # rows) =
     (case byLUID cache (InterfaceLUID row) of
        None \<Rightarrow> resolvable_routes cache rows
      | Some iface \<Rightarrow> enrich row iface # resolvable_routes cache rows)"
  by (simp add: resolvable_routes_def resolve_row_def split: option.splits)

lemma set_resolvable_routes:
  "set (resolvable_routes cache rows) =
     {enrich row iface | row iface.
        row \<in> set rows \<and> byLUID cache (InterfaceLUID row) = Some iface}"
  by (induction rows) (auto simp: resolvable_routes_Nil resolvable_routes_Cons split: option.splits)

text \<open>The directory and the resolvable routes of the small system.\<close>

lemma demo_byLUID:
  "byLUID (directory X [eth0, eth1, tun0]) 1 = Some (adapter_iface eth0)"
  "byLUID (directory X [eth0, eth1, tun0]) 2 = Some (adapter_iface eth1)"
  "byLUID (directory X [eth0, eth1, tun0]) 9 = None"
  by (simp_all add: byLUID_directory eth0_def eth1_def tun0_def)

lemma demo_resolvable:
  "resolvable_routes (directory X [eth0, eth1, tun0]) [row_a, row_b, row_c, row_d]
     = [enrich row_a (adapter_iface eth0), enrich row_c (adapter_iface eth1),
        enrich row_d (adapter_iface eth0)]"
  by (simp add: resolvable_routes_Nil resolvable_routes_Cons
        row_a_def row_b_def row_c_def row_d_def demo_byLUID)

lemma demo_metric5:
  "filter (satisfies_all [WithMetric 5])
     [enrich row_a (adapter_iface eth0), enrich row_c (adapter_iface eth1),
      enrich row_d (adapter_iface eth0)]
   = [enrich row_a (adapter_iface eth0), enrich row_c (adapter_iface eth1)]"
  by (simp add: satisfies_all_def WithMetric_def enrich_def row_a_def row_c_def row_d_def)

lemma demo_queries:
  "GetAdaptersAddresses (table_env adapters locked) (os (world0 table)) = Inr adapters"
  "GetIPForwardTable2 (table_env adapters locked) (os (world0 table)) = Inr table"
  by (simp_all add: table_env_def world0_def)

lemma resolvable_routes_fields:
  "resolvable_routes cache rows =
     List.map_filter
       (\<lambda>row. map_option
          (\<lambda>iface. \<lparr>Destination = DestinationPrefix row, NextHop = RowNextHop row,
                     Interface = iface, Metric = RowMetric row,
                     Protocol = RowProtocol row, Origin = RowOrigin row\<rparr>)
          (byLUID cache (InterfaceLUID row))) rows"
proof -
  have "resolve_row cache =
          (\<lambda>row. map_option
             (\<lambda>iface. \<lparr>Destination = DestinationPrefix row, NextHop = RowNextHop row,
                        Interface = iface, Metric = RowMetric row,
                        Protocol = RowProtocol row, Origin = RowOrigin row\<rparr>)
             (byLUID cache (InterfaceLUID row)))"
    by (rule ext) (simp add: resolve_row_def enrich_def [abs_def])
  then show ?thesis by (simp only: resolvable_routes_def)
qed

text \<open>The routes of the small system, field by field.\<close>

lemma demo_route_a:
  "enrich row_a (adapter_iface eth0) =
     \<lparr>Destination = PrefixFrom (Addr4 0x0A000000) 8, NextHop = Addr4 0xC0A80101,
      Interface = \<lparr>Index = 7, LUID = 1, Alias = ''Ethernet'',
                   Description = ''Realtek PCIe GbE Family Controller''\<rparr>,
      Metric = 5, Protocol = 3, Origin = 0\<rparr>"
  by (simp add: enrich_def adapter_iface_def row_a_def eth0_def net10_def gw_def)

lemma demo_route_c:
  "enrich row_c (adapter_iface eth1) =
     \<lparr>Destination = PrefixFrom (Addr4 0xC0A80100) 24, NextHop = Addr4 0xC0A80101,
      Interface = \<lparr>Index = 0, LUID = 2, Alias = ''ETHERNET'',
                   Description = ''Intel I210''\<rparr>,
      Metric = 5, Protocol = 3, Origin = 0\<rparr>"
  by (simp add: enrich_def adapter_iface_def row_c_def eth1_def net192_def gw_def)

lemma demo_route_d:
  "enrich row_d (adapter_iface eth0) =
     \<lparr>Destination = PrefixFrom (Addr4 0xC0A80100) 24, NextHop = Addr4 0xC0A80101,
      Interface = \<lparr>Index = 7, LUID = 1, Alias = ''Ethernet'',
                   Description = ''Realtek PCIe GbE Family Controller''\<rparr>,
      Metric = 20, Protocol = 3, Origin = 0\<rparr>"
  by (simp add: enrich_def adapter_iface_def row_d_def eth0_def net192_def gw_def)

text \<open>
  C1. When the two queries of the system succeed, \<open>GetRoutes F\<close> returns, in the order
  of the table, one route for each row whose LUID resolves in the directory and whose
  route satisfies every predicate of \<open>F\<close>; with no predicate it returns one route for
  every resolvable row. The route of a row has the row's destination prefix, next hop,
  metric, protocol and origin, and as its interface the directory entry of the row's
  LUID. A route is in the result exactly when it is such a route of a row of the table
  and passes all predicates.
\<close>

theorem GetRoutes_exactly_matching:
  assumes "GetAdaptersAddresses X (os w) = Inr adapters"
    and "GetIPForwardTable2 X (os w) = Inr rows"
  shows "\<exists>routes.
           routes =
             List.map_filter
               (\<lambda>row. map_option
                  (\<lambda>iface. \<lparr>Destination = DestinationPrefix row, NextHop = RowNextHop row,
                             Interface = iface, Metric = RowMetric row,
                             Protocol = RowProtocol row, Origin = RowOrigin row\<rparr>)
                  (byLUID (directory X adapters) (InterfaceLUID row))) rows
         \<and> fst (GetRoutes X F w) = Inr (filter (satisfies_all F) routes)
         \<and> fst (GetRoutes X [] w) = Inr routes
         \<and> (\<forall>rs. fst (GetRoutes X F w) = Inr rs \<longrightarrow>
              (\<forall>r. r \<in> set rs \<longleftrightarrow>
                 (\<exists>row \<in> set rows. \<exists>iface.
                     byLUID (directory X adapters) (InterfaceLUID row) = Some iface
                   \<and> r = \<lparr>Destination = DestinationPrefix row, NextHop = RowNextHop row,
                            Interface = iface, Metric = RowMetric row,
                            Protocol = RowProtocol row, Origin = RowOrigin row\<rparr>
                   \<and> (\<forall>p \<in> set F. p r))))"
proof -
  let ?routes = "resolvable_routes (directory X adapters) rows"
  have a: "fst (GetRoutes X G w) = Inr (filter (satisfies_all G) ?routes)" for G
    using assms by (simp add: GetRoutes_ok)
  have b: "filter (satisfies_all []) xs = xs" for xs :: "Route list"
    by (simp add: satisfies_all_def)
  have a0: "fst (GetRoutes X [] w) = Inr ?routes"
    using a [of "[]"] by (simp only: b)
  have c: "r \<in> set (filter (satisfies_all F) ?routes) \<longleftrightarrow>
               (\<exists>row \<in> set rows. \<exists>iface.
                   byLUID (directory X adapters) (InterfaceLUID row) = Some iface
                 \<and> r = \<lparr>Destination = DestinationPrefix row, NextHop = RowNextHop row,
                          Interface = iface, Metric = RowMetric row,
                          Protocol = RowProtocol row, Origin = RowOrigin row\<rparr>
                 \<and> (\<forall>p \<in> set F. p r))" for r
    by (auto simp: set_resolvable_routes satisfies_all_def enrich_def)
  have d: "\<forall>rs. fst (GetRoutes X F w) = Inr rs \<longrightarrow>
              (\<forall>r. r \<in> set rs \<longleftrightarrow>
                 (\<exists>row \<in> set rows. \<exists>iface.
                     byLUID (directory X adapters) (InterfaceLUID row) = Some iface
                   \<and> r = \<lparr>Destination = DestinationPrefix row, NextHop = RowNextHop row,
                            Interface = iface, Metric = RowMetric row,
                            Protocol = RowProtocol row, Origin = RowOrigin row\<rparr>
                   \<and> (\<forall>p \<in> set F. p r)))"
    using a [of F] c by simp
  from resolvable_routes_fields [of "directory X adapters" rows] a [of F] a0 d
  show ?thesis by (intro exI [of _ ?routes] conjI)
qed

theorem GetRoutes_exactly_matching_witness:
  "GetAdaptersAddresses (table_env [eth0, eth1, tun0] []) (os (world0 [row_a, row_b, row_c, row_d]))
     = Inr [eth0, eth1, tun0]
   \<and> GetIPForwardTable2 (table_env [eth0, eth1, tun0] []) (os (world0 [row_a, row_b, row_c, row_d]))
     = Inr [row_a, row_b, row_c, row_d]
   \<and> fst (GetRoutes (table_env [eth0, eth1, tun0] []) [WithMetric 5]
            (world0 [row_a, row_b, row_c, row_d]))
     = Inr [\<lparr>Destination = PrefixFrom (Addr4 0x0A000000) 8, NextHop = Addr4 0xC0A80101,
             Interface = \<lparr>Index = 7, LUID = 1, Alias = ''Ethernet'',
                          Description = ''Realtek PCIe GbE Family Controller''\<rparr>,
             Metric = 5, Protocol = 3, Origin = 0\<rparr>,
            \<lparr>Destination = PrefixFrom (Addr4 0xC0A80100) 24, NextHop = Addr4 0xC0A80101,
             Interface = \<lparr>Index = 0, LUID = 2, Alias = ''ETHERNET'',
                          Description = ''Intel I210''\<rparr>,
             Metric = 5, Protocol = 3, Origin = 0\<rparr>]
   \<and> fst (GetRoutes (table_env [eth0, eth1, tun0] []) []
            (world0 [row_a, row_b, row_c, row_d]))
     = Inr [\<lparr>Destination = PrefixFrom (Addr4 0x0A000000) 8, NextHop = Addr4 0xC0A80101,
             Interface = \<lparr>Index = 7, LUID = 1, Alias = ''Ethernet'',
                          Description = ''Realtek PCIe GbE Family Controller''\<rparr>,
             Metric = 5, Protocol = 3, Origin = 0\<rparr>,
            \<lparr>Destination = PrefixFrom (Addr4 0xC0A80100) 24, NextHop = Addr4 0xC0A80101,
             Interface = \<lparr>Index = 0, LUID = 2, Alias = ''ETHERNET'',
                          Description = ''Intel I210''\<rparr>,
             Metric = 5, Protocol = 3, Origin = 0\<rparr>,
            \<lparr>Destination = PrefixFrom (Addr4 0xC0A80100) 24, NextHop = Addr4 0xC0A80101,
             Interface = \<lparr>Index = 7, LUID = 1, Alias = ''Ethernet'',
                          Description = ''Realtek PCIe GbE Family Controller''\<rparr>,
             Metric = 20, Protocol = 3, Origin = 0\<rparr>]"
proof -
  note h = demo_queries [of "[eth0, eth1, tun0]" "[]" "[row_a, row_b, row_c, row_d]"]
  from GetRoutes_exactly_matching [OF h, of "[WithMetric 5]"]
  obtain routes where
    r: "routes =
          List.map_filter
            (\<lambda>row. map_option
               (\<lambda>iface. \<lparr>Destination = DestinationPrefix row, NextHop = RowNextHop row,
                          Interface = iface, Metric = RowMetric row,
                          Protocol = RowProtocol row, Origin = RowOrigin row\<rparr>)
               (byLUID (directory (table_env [eth0, eth1, tun0] []) [eth0, eth1, tun0])
                  (InterfaceLUID row))) [row_a, row_b, row_c, row_d]"
    and f: "fst (GetRoutes (table_env [eth0, eth1, tun0] []) [WithMetric 5]
              (world0 [row_a, row_b, row_c, row_d])) = Inr (filter (satisfies_all [WithMetric 5]) routes)"
    and n: "fst (GetRoutes (table_env [eth0, eth1, tun0] []) []
              (world0 [row_a, row_b, row_c, row_d])) = Inr routes"
    by (elim exE conjE)
  from r have r': "routes = [enrich row_a (adapter_iface eth0), enrich row_c (adapter_iface eth1),
                             enrich row_d (adapter_iface eth0)]"
    by (simp only: resolvable_routes_fields [symmetric] demo_resolvable)
  from f have f': "fst (GetRoutes (table_env [eth0, eth1, tun0] []) [WithMetric 5]
              (world0 [row_a, row_b, row_c, row_d]))
            = Inr [enrich row_a (adapter_iface eth0), enrich row_c (adapter_iface eth1)]"
    by (simp only: r' demo_metric5)
  from n have n': "fst (GetRoutes (table_env [eth0, eth1, tun0] []) []
              (world0 [row_a, row_b, row_c, row_d]))
            = Inr [enrich row_a (adapter_iface eth0), enrich row_c (adapter_iface eth1),
                   enrich row_d (adapter_iface eth0)]"
    by (simp only: r')
  from h f' [unfolded demo_route_a demo_route_c] n' [unfolded demo_route_a demo_route_c demo_route_d]
  show ?thesis by (intro conjI)
qed

lemma resolvable_routes_filter:
  "resolvable_routes cache (filter (resolves cache) rows) = resolvable_routes cache rows"
  by (induction rows)
     (auto simp: resolvable_routes_Nil resolvable_routes_Cons resolves_def split: option.splits)

lemma kept_rows_routes:
  "list_all2 (\<lambda>row r. resolve_row cache row = Some r)
     (kept_rows cache F rows) (filter (satisfies_all F) (resolvable_routes cache rows))"
  by (induction rows)
     (auto simp: kept_rows_def resolvable_routes_def split: option.splits)

lemma demo_kept:
  "kept_rows (directory X [eth0, eth1, tun0]) [WithMetric 5] [row_a, row_b, row_c, row_d]
     = [row_a, row_c]"
  by (simp add: kept_rows_def resolve_row_def satisfies_all_def WithMetric_def enrich_def
        row_a_def row_b_def row_c_def row_d_def demo_byLUID)

text \<open>
  C4. When the two queries succeed, \<open>GetRoutes\<close> returns a list and no error whatever
  the rows are; the list is the one obtained from the table without its unresolvable
  rows; every returned route is the enrichment of a row of the table whose LUID the
  directory maps to the route's interface; and no returned route has the LUID of an
  unresolvable row.
\<close>

theorem GetRoutes_skips_unresolved:
  assumes "GetAdaptersAddresses X (os w) = Inr adapters"
    and "GetIPForwardTable2 X (os w) = Inr rows"
  shows "\<exists>rs. fst (GetRoutes X F w) = Inr rs
            \<and> rs = aggregate (directory X adapters) F
                     (filter (resolves (directory X adapters)) rows) []
            \<and> (\<forall>r \<in> set rs. \<exists>row \<in> set rows.
                   byLUID (directory X adapters) (InterfaceLUID row) = Some (Interface r)
                 \<and> r = enrich row (Interface r))
            \<and> (\<forall>row \<in> set rows. \<not> resolves (directory X adapters) row \<longrightarrow>
                   (\<forall>r \<in> set rs. LUID (Interface r) \<noteq> InterfaceLUID row))"
proof -
  let ?D = "directory X adapters"
  let ?rs = "filter (satisfies_all F) (resolvable_routes ?D rows)"
  have a: "fst (GetRoutes X F w) = Inr ?rs"
    using assms by (simp add: GetRoutes_ok)
  have b: "?rs = aggregate ?D F (filter (resolves ?D) rows) []"
    by (simp add: aggregate_eq resolvable_routes_filter)
  have c: "\<exists>row \<in> set rows. byLUID ?D (InterfaceLUID row) = Some (Interface r)
             \<and> r = enrich row (Interface r)" if "r \<in> set ?rs" for r
    using that by (auto simp: set_resolvable_routes enrich_def)
  have d: "LUID (Interface r) \<noteq> InterfaceLUID row"
    if "r \<in> set ?rs" "row \<in> set rows" "\<not> resolves ?D row" for r row
  proof -
    from c [OF that(1)] obtain row' :: MibIPforwardRow2 where
      r': "byLUID ?D (InterfaceLUID row') = Some (Interface r)" by blast
    then have "LUID (Interface r) = InterfaceLUID row'" by (rule byLUID_directory_LUID)
    with r' that(3) show ?thesis by (auto simp: resolves_def)
  qed
  show ?thesis using a b c d by blast
qed

theorem GetRoutes_skips_unresolved_witness:
  "GetAdaptersAddresses (table_env [eth0, eth1, tun0] []) (os (world0 [row_a, row_b, row_c, row_d]))
     = Inr [eth0, eth1, tun0]
   \<and> GetIPForwardTable2 (table_env [eth0, eth1, tun0] []) (os (world0 [row_a, row_b, row_c, row_d]))
     = Inr [row_a, row_b, row_c, row_d]
   \<and> row_b \<in> set [row_a, row_b, row_c, row_d]
   \<and> \<not> resolves (directory (table_env [eth0, eth1, tun0] []) [eth0, eth1, tun0]) row_b
   \<and> (\<exists>rs. fst (GetRoutes (table_env [eth0, eth1, tun0] []) []
                  (world0 [row_a, row_b, row_c, row_d])) = Inr rs
          \<and> (\<forall>r \<in> set rs. LUID (Interface r) \<noteq> InterfaceLUID row_b))"
proof -
  note h = demo_queries [of "[eth0, eth1, tun0]" "[]" "[row_a, row_b, row_c, row_d]"]
  have m: "row_b \<in> set [row_a, row_b, row_c, row_d]" by simp
  have u: "\<not> resolves (directory (table_env [eth0, eth1, tun0] []) [eth0, eth1, tun0]) row_b"
    by (simp add: resolves_def row_b_def demo_byLUID)
  from GetRoutes_skips_unresolved [OF h, of "[]"] m u
  have "\<exists>rs. fst (GetRoutes (table_env [eth0, eth1, tun0] []) []
                  (world0 [row_a, row_b, row_c, row_d])) = Inr rs
          \<and> (\<forall>r \<in> set rs. LUID (Interface r) \<noteq> InterfaceLUID row_b)"
    by blast
  with h m u show ?thesis by blast
qed

text \<open>
  C9. When the two queries succeed, the rows that \<open>GetRoutes\<close> keeps (resolvable and
  matching every filter) form a subsequence of the table as the system enumerated it,
  and the returned list is, position by position, the list of their enriched routes:
  nothing is reordered.
\<close>

theorem GetRoutes_preserves_order:
  assumes "GetAdaptersAddresses X (os w) = Inr adapters"
    and "GetIPForwardTable2 X (os w) = Inr rows"
  shows "\<exists>rs. fst (GetRoutes X F w) = Inr rs
            \<and> subseq (kept_rows (directory X adapters) F rows) rows
            \<and> list_all2 (\<lambda>row r. resolve_row (directory X adapters) row = Some r)
                 (kept_rows (directory X adapters) F rows) rs"
proof -
  have "subseq (kept_rows (directory X adapters) F rows) rows"
    by (simp add: kept_rows_def)
  moreover have "fst (GetRoutes X F w) =
           Inr (filter (satisfies_all F) (resolvable_routes (directory X adapters) rows))"
    using assms by (simp add: GetRoutes_ok)
  ultimately show ?thesis
    using kept_rows_routes [of "directory X adapters" F rows] by blast
qed

theorem GetRoutes_preserves_order_witness:
  "GetAdaptersAddresses (table_env [eth0, eth1, tun0] []) (os (world0 [row_a, row_b, row_c, row_d]))
     = Inr [eth0, eth1, tun0]
   \<and> GetIPForwardTable2 (table_env [eth0, eth1, tun0] []) (os (world0 [row_a, row_b, row_c, row_d]))
     = Inr [row_a, row_b, row_c, row_d]
   \<and> (\<exists>rs. fst (GetRoutes (table_env [eth0, eth1, tun0] []) [WithMetric 5]
                  (world0 [row_a, row_b, row_c, row_d])) = Inr rs
          \<and> subseq [row_a, row_c] [row_a, row_b, row_c, row_d]
          \<and> list_all2
               (\<lambda>row r. resolve_row (directory (table_env [eth0, eth1, tun0] [])
                                      [eth0, eth1, tun0]) row = Some r)
               [row_a, row_c] rs)"
proof -
  note h = demo_queries [of "[eth0, eth1, tun0]" "[]" "[row_a, row_b, row_c, row_d]"]
  from GetRoutes_preserves_order [OF h, of "[WithMetric 5]"]
  have "\<exists>rs. fst (GetRoutes (table_env [eth0, eth1, tun0] []) [WithMetric 5]
                  (world0 [row_a, row_b, row_c, row_d])) = Inr rs
          \<and> subseq [row_a, row_c] [row_a, row_b, row_c, row_d]
          \<and> list_all2
               (\<lambda>row r. resolve_row (directory (table_env [eth0, eth1, tun0] [])
                                      [eth0, eth1, tun0]) row = Some r)
               [row_a, row_c] rs"
    unfolding demo_kept .
  with h show ?thesis by blast
qed

section \<open>Alias collisions in the interface cache\<close>

lemma find_first:
  "\<forall>c \<in> set pre. \<not> P c \<Longrightarrow> P a \<Longrightarrow> find P (pre @ a # rest) = Some a"
  by (induction pre) auto

lemma directory_alias_first:
  assumes "\<forall>c \<in> set pre. ToLower X (FriendlyName c) \<noteq> k"
    and "ToLower X (FriendlyName a) = k"
  shows "byAlias (directory X (pre @ a # rest)) k = Some (adapter_iface a)"
  using assms by (simp add: byAlias_directory find_first)

lemma directory_LUID_last:
  assumes "\<forall>c \<in> set post. AdapterLUID c \<noteq> AdapterLUID b"
  shows "byLUID (directory X (front @ b # post)) (AdapterLUID b) = Some (adapter_iface b)"
  using assms by (simp add: byLUID_directory find_first)

lemma directory_Index_last:
  assumes "\<forall>c \<in> set post. IfIndex c \<noteq> IfIndex b"
  shows "byIndex (directory X (front @ b # post)) (IfIndex b) = Some (adapter_iface b)"
  using assms by (simp add: byIndex_directory find_first)

lemma adapter_iface_alias: "adapter_iface c = adapter_iface b \<Longrightarrow> FriendlyName c = FriendlyName b"
  by (simp add: adapter_iface_def)

lemma directory_alias_value:
  assumes "byAlias (directory X as) key = Some i"
  shows "\<exists>c \<in> set as. i = adapter_iface c \<and> ToLower X (FriendlyName c) = key"
  using assms by (auto simp: byAlias_directory find_Some_iff)

lemma demo_digits:
  "is_digit CHR ''4''" "is_digit CHR ''2''" "digit_of CHR ''4'' = 4" "digit_of CHR ''2'' = 2"
  by (simp_all add: is_digit_def digit_of_def)

lemma demo_parse: "ParseUint_10_32 ''42'' = Inr 42"
  by (simp add: ParseUint_10_32_def demo_digits maxVal_def)

lemma ascii_lower_demo:
  "ascii_lower ''Ethernet'' = ''ethernet''"
  "ascii_lower ''ETHERNET'' = ''ethernet''"
  "ascii_lower ''42'' = ''42''"
  by code_simp+

lemma ToLower_table_env: "ToLower (table_env as locked) = ascii_lower"
  by (simp add: table_env_def)

lemma demo_by_number: "by_number (directory X [eth0, eth1, tun0]) ''42'' = None"
  by (simp add: by_number_def demo_parse byIndex_directory eth0_def eth1_def tun0_def)

lemma demo_by_alias:
  "byAlias (directory (table_env as locked) [eth0, eth1, tun0]) (ToLower (table_env as locked) ''42'')
     = Some (adapter_iface tun0)"
  by (simp add: byAlias_directory ToLower_table_env eth0_def eth1_def tun0_def ascii_lower_demo)

text \<open>
  C7 (as the code has it). Let the adapter list be \<open>pre @ a # mid @ b # post\<close>, where
  \<open>a\<close> and \<open>b\<close> have the same lowercased alias \<open>k\<close> and no adapter of \<open>pre\<close> has it.
  Then the alias map binds \<open>k\<close> to \<open>a\<close>, the first such adapter. The later adapter \<open>b\<close>
  is the LUID entry of its LUID when no adapter after it has the same LUID, and the
  index entry of its index when no adapter after it has the same index (both maps are
  overwritten by later adapters). No alias key leads to \<open>b\<close>, as long as \<open>b\<close> is not
  field for field the interface of \<open>a\<close>.
\<close>

theorem alias_first_wins:
  assumes "adapters = pre @ a # mid @ b # post"
    and "ToLower X (FriendlyName a) = k"
    and "ToLower X (FriendlyName b) = k"
    and "\<forall>c \<in> set pre. ToLower X (FriendlyName c) \<noteq> k"
  shows "byAlias (directory X adapters) k = Some (adapter_iface a)
       \<and> ((\<forall>c \<in> set post. AdapterLUID c \<noteq> AdapterLUID b) \<longrightarrow>
            byLUID (directory X adapters) (AdapterLUID b) = Some (adapter_iface b))
       \<and> ((\<forall>c \<in> set post. IfIndex c \<noteq> IfIndex b) \<longrightarrow>
            byIndex (directory X adapters) (IfIndex b) = Some (adapter_iface b))
       \<and> (adapter_iface b \<noteq> adapter_iface a \<longrightarrow>
            (\<forall>key. byAlias (directory X adapters) key \<noteq> Some (adapter_iface b)))"
  (is "?P1 \<and> ?P2 \<and> ?P3 \<and> ?P4")
proof -
  have p1: ?P1
    unfolding assms(1) using assms(4) assms(2) by (rule directory_alias_first)
  have split: "adapters = (pre @ a # mid) @ b # post"
    using assms(1) by simp
  have p2: ?P2
  proof
    assume "\<forall>c \<in> set post. AdapterLUID c \<noteq> AdapterLUID b"
    then show "byLUID (directory X adapters) (AdapterLUID b) = Some (adapter_iface b)"
      unfolding split by (rule directory_LUID_last)
  qed
  have p3: ?P3
  proof
    assume "\<forall>c \<in> set post. IfIndex c \<noteq> IfIndex b"
    then show "byIndex (directory X adapters) (IfIndex b) = Some (adapter_iface b)"
      unfolding split by (rule directory_Index_last)
  qed
  have p4: ?P4
  proof (intro impI allI notI)
    fix key
    assume ne: "adapter_iface b \<noteq> adapter_iface a"
      and e: "byAlias (directory X adapters) key = Some (adapter_iface b)"
    from directory_alias_value [OF e] obtain c :: IPAdapterAddresses where
      c: "adapter_iface b = adapter_iface c" "ToLower X (FriendlyName c) = key"
      by (elim bexE conjE)
    from c(1) [symmetric] have fn: "FriendlyName c = FriendlyName b"
      by (rule adapter_iface_alias)
    have "key = ToLower X (FriendlyName c)" using c(2) by (rule sym)
    also have "\<dots> = ToLower X (FriendlyName b)" by (simp only: fn)
    also have "\<dots> = k" by (rule assms(3))
    finally have "byAlias (directory X adapters) k = Some (adapter_iface b)"
      using e by (simp only:)
    with p1 have "adapter_iface b = adapter_iface a" by (simp only: option.inject)
    with ne show False by (rule notE)
  qed
  from p1 p2 p3 p4 show ?thesis by (intro conjI)
qed

theorem alias_first_wins_witness:
  "[eth0, eth1, tun0] = [] @ eth0 # [] @ eth1 # [tun0]
   \<and> ToLower (table_env [] []) (FriendlyName eth0) = ''ethernet''
   \<and> ToLower (table_env [] []) (FriendlyName eth1) = ''ethernet''
   \<and> AdapterLUID tun0 \<noteq> AdapterLUID eth1
   \<and> adapter_iface eth1 \<noteq> adapter_iface eth0
   \<and> byAlias (directory (table_env [] []) [eth0, eth1, tun0]) ''ethernet''
       = Some (adapter_iface eth0)
   \<and> byLUID (directory (table_env [] []) [eth0, eth1, tun0]) (AdapterLUID eth1)
       = Some (adapter_iface eth1)
   \<and> (\<forall>key. byAlias (directory (table_env [] []) [eth0, eth1, tun0]) key
          \<noteq> Some (adapter_iface eth1))"
proof -
  have h1: "[eth0, eth1, tun0] = [] @ eth0 # [] @ eth1 # [tun0]" by simp
  have h2: "ToLower (table_env [] []) (FriendlyName eth0) = ''ethernet''"
    by (simp add: ToLower_table_env eth0_def ascii_lower_demo)
  have h3: "ToLower (table_env [] []) (FriendlyName eth1) = ''ethernet''"
    by (simp add: ToLower_table_env eth1_def ascii_lower_demo)
  have h4: "\<forall>c \<in> set []. ToLower (table_env [] []) (FriendlyName c) \<noteq> ''ethernet''"
    by simp
  have h5: "\<forall>c \<in> set [tun0]. AdapterLUID c \<noteq> AdapterLUID eth1"
    by (simp add: tun0_def eth1_def)
  have h6: "adapter_iface eth1 \<noteq> adapter_iface eth0"
    by (simp add: adapter_iface_def eth0_def eth1_def)
  note t = alias_first_wins [OF h1 h2 h3 h4]
  have c1: "byAlias (directory (table_env [] []) [eth0, eth1, tun0]) ''ethernet''
       = Some (adapter_iface eth0)"
    using t by (rule conjunct1)
  have c2: "byLUID (directory (table_env [] []) [eth0, eth1, tun0]) (AdapterLUID eth1)
       = Some (adapter_iface eth1)"
    using t [THEN conjunct2, THEN conjunct1] h5 by (rule mp)
  have c3: "\<forall>key. byAlias (directory (table_env [] []) [eth0, eth1, tun0]) key
          \<noteq> Some (adapter_iface eth1)"
    using t [THEN conjunct2, THEN conjunct2, THEN conjunct2] h6 by (rule mp)
  have l: "AdapterLUID tun0 \<noteq> AdapterLUID eth1"
    by (simp add: tun0_def eth1_def)
  from h1 h2 h3 l h6 c1 c2 c3 show ?thesis by (intro conjI)
qed

text \<open>
  C7 as stated fails on the index map: \<open>eth0\<close> and \<open>eth1\<close> have the same lowercased
  alias and the alias map holds \<open>eth0\<close>, but \<open>eth1\<close> and the adapter after it, \<open>tun0\<close>,
  both have index 0, so the index map leads to \<open>tun0\<close> and \<open>eth1\<close> is not reachable by
  its index.
\<close>

theorem alias_shadowed_index_counterexample:
  "ToLower (table_env [eth0, eth1, tun0] []) (FriendlyName eth0)
     = ToLower (table_env [eth0, eth1, tun0] []) (FriendlyName eth1)
   \<and> byAlias (directory (table_env [eth0, eth1, tun0] []) [eth0, eth1, tun0])
        (ToLower (table_env [eth0, eth1, tun0] []) (FriendlyName eth1))
     = Some (adapter_iface eth0)
   \<and> byIndex (directory (table_env [eth0, eth1, tun0] []) [eth0, eth1, tun0]) (IfIndex eth1)
       = Some (adapter_iface tun0)
   \<and> byIndex (directory (table_env [eth0, eth1, tun0] []) [eth0, eth1, tun0]) (IfIndex eth1)
       \<noteq> Some (adapter_iface eth1)"
  by (simp add: byAlias_directory byIndex_directory ToLower_table_env
        eth0_def eth1_def tun0_def ascii_lower_demo adapter_iface_def)

section \<open>findInterface\<close>

lemma dec_step_mono: "(n::nat) \<le> foldl (\<lambda>n c. n * 10 + digit_of c) n cs"
proof (induction cs arbitrary: n)
  case Nil
  show ?case by simp
next
  case (Cons c cs)
  have "n \<le> n * 10 + digit_of c" by simp
  also have "\<dots> \<le> foldl (\<lambda>n c. n * 10 + digit_of c) (n * 10 + digit_of c) cs"
    by (rule Cons.IH)
  finally show ?case by simp
qed

lemma parse_digits_iff:
  "parse_digits cs n0 = Inr n \<longleftrightarrow>
     list_all is_digit cs \<and> foldl (\<lambda>n c. n * 10 + digit_of c) n0 cs = (n::nat)
     \<and> (cs \<noteq> [] \<longrightarrow> n \<le> maxVal)"
proof (induction cs arbitrary: n0)
  case Nil
  show ?case by auto
next
  case (Cons c cs)
  let ?n1 = "n0 * 10 + digit_of c"
  show ?case
  proof (cases "is_digit c")
    case False
    then show ?thesis by simp
  next
    case d: True
    show ?thesis
    proof (cases "?n1 > maxVal")
      case True
      with dec_step_mono [of ?n1 cs] have "foldl (\<lambda>n c. n * 10 + digit_of c) ?n1 cs > maxVal"
        by linarith
      with True d show ?thesis by (auto simp: Let_def)
    next
      case False
      show ?thesis
      proof (cases cs)
        case Nil
        with False d show ?thesis by (auto simp: Let_def)
      next
        case (Cons a list)
        with False d Cons.IH [of ?n1] show ?thesis by (auto simp: Let_def)
      qed
    qed
  qed
qed

lemma ParseUint_10_32_iff:
  "ParseUint_10_32 s = Inr n \<longleftrightarrow>
     s \<noteq> [] \<and> list_all is_digit s \<and> dec_value s = n \<and> n \<le> maxVal"
  by (auto simp: ParseUint_10_32_def dec_value_def parse_digits_iff)

lemma maxVal_less: "n \<le> maxVal \<longleftrightarrow> n < 2 ^ 32"
proof -
  have "Suc maxVal = 2 ^ 32" by (simp add: maxVal_def)
  then show ?thesis by (metis less_Suc_eq_le)
qed

text \<open>
  C6. \<open>findInterface\<close> returns the index entry when the identifier parses as an unsigned
  32-bit decimal number and the index map has that number; otherwise (the identifier does
  not parse, or the number has no entry) it returns the alias entry of the lowercased
  identifier; when that is missing too it fails with the error that wraps
  \<open>ErrNotFound\<close>. The identifier parses exactly when it is a non-empty string of
  decimal digits whose value is below \<open>2^32\<close>. On a directory built from adapters the
  alias entry of the lowercased identifier is the first adapter whose lowercased alias
  equals it.
\<close>

theorem findInterface_index_then_alias:
  "(\<forall>iface. by_number c s = Some iface \<longrightarrow> findInterface X c s = Inr iface)
 \<and> (\<forall>iface. by_number c s = None \<and> byAlias c (ToLower X s) = Some iface \<longrightarrow>
        findInterface X c s = Inr iface)
 \<and> (by_number c s = None \<and> byAlias c (ToLower X s) = None \<longrightarrow>
        findInterface X c s =
          Inl (Errorf ''interface '%s' not found: %w'' [ArgString s] (Some ErrNotFound)))
 \<and> (\<forall>n. ParseUint_10_32 s = Inr n \<longleftrightarrow>
        s \<noteq> [] \<and> list_all is_digit s \<and> dec_value s = n \<and> n < 2 ^ 32)
 \<and> (\<forall>as. byAlias (directory X as) (ToLower X s) =
        map_option adapter_iface
          (find (\<lambda>a. ToLower X (FriendlyName a) = ToLower X s) as))"
  (is "?A \<and> ?B \<and> ?C \<and> ?D \<and> ?E")
proof -
  have a: "findInterface X c s = Inr iface" if "by_number c s = Some iface" for iface
    using that by (auto simp: by_number_def findInterface_def split: sum.splits option.splits)
  have b: "findInterface X c s = Inr iface"
    if "by_number c s = None" "byAlias c (ToLower X s) = Some iface" for iface
    using that by (auto simp: by_number_def findInterface_def split: sum.splits option.splits)
  have e: "findInterface X c s =
          Inl (Errorf ''interface '%s' not found: %w'' [ArgString s] (Some ErrNotFound))"
    if "by_number c s = None" "byAlias c (ToLower X s) = None"
    using that by (auto simp: by_number_def findInterface_def split: sum.splits option.splits)
  have p: "ParseUint_10_32 s = Inr n \<longleftrightarrow>
        s \<noteq> [] \<and> list_all is_digit s \<and> dec_value s = n \<and> n < 2 ^ 32" for n
    by (simp add: ParseUint_10_32_iff maxVal_less)
  have A: ?A using a by blast
  have B: ?B using b by blast
  have C: ?C using e by blast
  have D: ?D using p by blast
  have E: ?E by (simp add: byAlias_directory)
  from A B C D E show ?thesis by (intro conjI)
qed

theorem findInterface_index_then_alias_witness:
  "by_number (directory (table_env [] []) [eth0, eth1, tun0]) ''42'' = None
   \<and> byAlias (directory (table_env [] []) [eth0, eth1, tun0]) (ToLower (table_env [] []) ''42'')
       = Some (adapter_iface tun0)
   \<and> ParseUint_10_32 ''42'' = Inr 42
   \<and> findInterface (table_env [] []) (directory (table_env [] []) [eth0, eth1, tun0]) ''42''
       = Inr (adapter_iface tun0)"
proof -
  note alias_case = findInterface_index_then_alias
          [of "directory (table_env [] []) [eth0, eth1, tun0]" "''42''" "table_env [] []",
           THEN conjunct2, THEN conjunct1, rule_format]
  have n: "by_number (directory (table_env [] []) [eth0, eth1, tun0]) ''42'' = None"
    by (rule demo_by_number)
  have a: "byAlias (directory (table_env [] []) [eth0, eth1, tun0])
             (ToLower (table_env [] []) ''42'') = Some (adapter_iface tun0)"
    by (rule demo_by_alias)
  from alias_case [OF conjI [OF n a]] n a demo_parse show ?thesis by (intro conjI)
qed

section \<open>AddRoute\<close>

text \<open>
  C8. \<open>AddRoute\<close> first converts the interface index to a LUID. When the conversion
  fails, the result is that error wrapped as the failure to convert the index, the only
  call made is the conversion and the state of the system is unchanged: no add is
  attempted. When it succeeds with \<open>luid\<close>, exactly one add call follows the conversion,
  for that LUID, and \<open>AddRoute\<close> succeeds exactly when that call does.
\<close>

theorem AddRoute_resolves_first:
  "(\<forall>e. LUIDFromIndex X ifaceIndex (os w) = Inl e \<longrightarrow>
      AddRoute X destination nextHop ifaceIndex metric w =
        (Some (Errorf ''failed to convert interface index to LUID: %w'' [] (Some e)),
         \<lparr>os = os w, calls = calls w @ [Call_LUIDFromIndex ifaceIndex]\<rparr>))
 \<and> (\<forall>luid. LUIDFromIndex X ifaceIndex (os w) = Inr luid \<longrightarrow>
      calls (snd (AddRoute X destination nextHop ifaceIndex metric w)) =
        calls w @ [Call_LUIDFromIndex ifaceIndex, Call_AddRoute luid destination nextHop metric]
    \<and> os (snd (AddRoute X destination nextHop ifaceIndex metric w)) =
        snd (LUID_AddRoute X luid destination nextHop metric (os w))
    \<and> (fst (AddRoute X destination nextHop ifaceIndex metric w) = None \<longleftrightarrow>
        fst (LUID_AddRoute X luid destination nextHop metric (os w)) = None))"
  (is "?A \<and> ?B")
proof -
  have A: ?A
    by (simp add: AddRoute_def sys_LUIDFromIndex_def)
  have B: ?B
    by (auto simp: AddRoute_def sys_LUIDFromIndex_def sys_AddRoute_def
             split: prod.splits option.splits)
  from A B show ?thesis by (intro conjI)
qed

lemma demo_LUIDFromIndex:
  "LUIDFromIndex (table_env [eth0, eth1, tun0] locked) 9 s = Inl (Errno 2)"
  "LUIDFromIndex (table_env [eth0, eth1, tun0] locked) 7 s = Inr 1"
  by (simp_all add: table_env_def eth0_def eth1_def tun0_def)

theorem AddRoute_resolves_first_witness:
  "LUIDFromIndex (table_env [eth0, eth1, tun0] []) 9 (os (world0 [row_a])) = Inl (Errno 2)
   \<and> AddRoute (table_env [eth0, eth1, tun0] []) net192 gw 9 1 (world0 [row_a]) =
       (Some (Errorf ''failed to convert interface index to LUID: %w'' [] (Some (Errno 2))),
        \<lparr>os = [row_a], calls = [Call_LUIDFromIndex 9]\<rparr>)
   \<and> LUIDFromIndex (table_env [eth0, eth1, tun0] []) 7 (os (world0 [row_a])) = Inr 1
   \<and> calls (snd (AddRoute (table_env [eth0, eth1, tun0] []) net192 gw 7 1 (world0 [row_a]))) =
       [Call_LUIDFromIndex 7, Call_AddRoute 1 net192 gw 1]"
proof -
  note t9 = AddRoute_resolves_first
      [of "table_env [eth0, eth1, tun0] []" 9 "world0 [row_a]" net192 gw 1,
       THEN conjunct1, rule_format, OF demo_LUIDFromIndex(1)]
  note t7 = AddRoute_resolves_first
      [of "table_env [eth0, eth1, tun0] []" 7 "world0 [row_a]" net192 gw 1,
       THEN conjunct2, rule_format, OF demo_LUIDFromIndex(2), THEN conjunct1]
  have a: "AddRoute (table_env [eth0, eth1, tun0] []) net192 gw 9 1 (world0 [row_a]) =
       (Some (Errorf ''failed to convert interface index to LUID: %w'' [] (Some (Errno 2))),
        \<lparr>os = [row_a], calls = [Call_LUIDFromIndex 9]\<rparr>)"
    using t9 by (simp add: world0_def)
  have b: "calls (snd (AddRoute (table_env [eth0, eth1, tun0] []) net192 gw 7 1
                         (world0 [row_a]))) =
       [Call_LUIDFromIndex 7, Call_AddRoute 1 net192 gw 1]"
    using t7 by (simp add: world0_def)
  from demo_LUIDFromIndex [of "[]" "os (world0 [row_a])"] a b show ?thesis by (intro conjI)
qed

section \<open>The options of DeleteRoutes\<close>

lemma extract_loop_eq:
  "extract_loop opts fs ea =
     (case find is_other opts of
        Some (OptOther t) \<Rightarrow> Inl (Errorf ''unsupported option type: %T'' [ArgType t] None)
      | _ \<Rightarrow> Inr (fs @ opt_filters opts, last (ea # opt_actions opts)))"
  by (induction opts fs ea rule: extract_loop.induct) (auto split: option.splits opt.splits)

lemma find_is_other:
  assumes "OptOther u \<in> set opts"
  shows "\<exists>t. find is_other opts = Some (OptOther t)"
proof -
  from assms have "find is_other opts \<noteq> None"
    by (auto simp: find_None_iff)
  then obtain x where x: "find is_other opts = Some x" by auto
  then have "is_other x" by (auto simp: find_Some_iff)
  then obtain t where "x = OptOther t" by (cases x) auto
  with x show ?thesis by simp
qed

lemma find_is_other_None: "find is_other opts = None \<longleftrightarrow> \<not> list_ex is_other opts"
  by (auto simp: find_None_iff list_ex_iff)

lemma extract_valid:
  assumes "\<not> list_ex is_other opts"
  shows "extractRouteParameters opts =
           Inr (opt_filters opts, last (ErrorActionContinue # opt_actions opts))"
  using assms by (simp add: extractRouteParameters_def extract_loop_eq find_is_other_None [symmetric])

lemma opt_filters_canon [simp]:
  "opt_filters (map OptFilter fs @ [OptErrorAction a]) = fs"
  by (induction fs) auto

lemma opt_actions_canon [simp]:
  "opt_actions (map OptFilter fs @ [OptErrorAction a]) = [a]"
  by (induction fs) auto

lemma canon_valid [simp]: "\<not> list_ex is_other (map OptFilter fs @ [OptErrorAction a])"
  by (induction fs) auto

lemma extract_canon:
  "extractRouteParameters (map OptFilter fs @ [OptErrorAction a]) = Inr (fs, a)"
  using extract_valid [OF canon_valid, of fs a] by simp

text \<open>
  C5. When the option list contains a value that is neither a \<open>FilterOption\<close> nor an
  \<open>ErrorAction\<close>, \<open>DeleteRoutes\<close> returns no partial errors and, as its error, the
  unsupported-option error naming the type of the first such value; the world it returns
  is the world it was given: no call to the system was made and the routing table is
  unchanged.
\<close>

theorem DeleteRoutes_invalid_option:
  assumes "OptOther u \<in> set opts"
  shows "\<exists>t. find is_other opts = Some (OptOther t)
           \<and> DeleteRoutes X opts w =
               (([], Some (Errorf ''unsupported option type: %T'' [ArgType t] None)), w)"
proof -
  from find_is_other [OF assms] obtain t where t: "find is_other opts = Some (OptOther t)" ..
  then have "extractRouteParameters opts =
      Inl (Errorf ''unsupported option type: %T'' [ArgType t] None)"
    by (simp add: extractRouteParameters_def extract_loop_eq)
  then have "DeleteRoutes X opts w =
               (([], Some (Errorf ''unsupported option type: %T'' [ArgType t] None)), w)"
    by (simp add: DeleteRoutes_def)
  with t show ?thesis by blast
qed

theorem DeleteRoutes_invalid_option_witness:
  "OptOther ''int'' \<in> set [OptFilter (WithMetric 5), OptOther ''int'',
                            OptErrorAction ErrorActionStop]
   \<and> DeleteRoutes (table_env [eth0, eth1, tun0] [])
         [OptFilter (WithMetric 5), OptOther ''int'', OptErrorAction ErrorActionStop]
         (world0 [row_a, row_b, row_c, row_d]) =
       (([], Some (Errorf ''unsupported option type: %T'' [ArgType ''int''] None)),
        world0 [row_a, row_b, row_c, row_d])"
proof -
  have m: "OptOther ''int'' \<in> set [OptFilter (WithMetric 5), OptOther ''int'',
                                   OptErrorAction ErrorActionStop]"
    by simp
  have f: "find is_other [OptFilter (WithMetric 5), OptOther ''int'',
                          OptErrorAction ErrorActionStop] = Some (OptOther ''int'')"
    by simp
  from DeleteRoutes_invalid_option [OF m, of "table_env [eth0, eth1, tun0] []"
         "world0 [row_a, row_b, row_c, row_d]"]
  obtain t where t: "find is_other [OptFilter (WithMetric 5), OptOther ''int'',
                          OptErrorAction ErrorActionStop] = Some (OptOther t)"
    and d: "DeleteRoutes (table_env [eth0, eth1, tun0] [])
         [OptFilter (WithMetric 5), OptOther ''int'', OptErrorAction ErrorActionStop]
         (world0 [row_a, row_b, row_c, row_d]) =
       (([], Some (Errorf ''unsupported option type: %T'' [ArgType t] None)),
        world0 [row_a, row_b, row_c, row_d])"
    by (elim exE conjE)
  from t f have "t = ''int''" by simp
  with d m show ?thesis by simp
qed

text \<open>
  C10. \<open>extractRouteParameters\<close> fails exactly when the list contains a value of
  another type, so never because an \<open>ErrorAction\<close> is repeated. On a list of filters and
  error actions only, it returns the filters in the order of the list and the last
  \<open>ErrorAction\<close> of the list (\<open>ErrorActionContinue\<close> when there is none), and
  \<open>DeleteRoutes\<close> on the list does what it does on those filters followed by that one
  action.
\<close>

theorem extractRouteParameters_last_action_wins:
  "((\<exists>e. extractRouteParameters opts = Inl e) \<longleftrightarrow> list_ex is_other opts)
 \<and> (\<not> list_ex is_other opts \<longrightarrow>
       extractRouteParameters opts =
         Inr (opt_filters opts, last (ErrorActionContinue # opt_actions opts))
     \<and> (opt_actions opts \<noteq> [] \<longrightarrow>
          extractRouteParameters opts = Inr (opt_filters opts, last (opt_actions opts)))
     \<and> DeleteRoutes X opts w =
         DeleteRoutes X (map OptFilter (opt_filters opts)
                           @ [OptErrorAction (last (ErrorActionContinue # opt_actions opts))]) w)"
  (is "?A \<and> ?B")
proof -
  have A: ?A
  proof (cases "list_ex is_other opts")
    case True
    then obtain x where x: "x \<in> set opts" and "is_other x" by (auto simp: list_ex_iff)
    from \<open>is_other x\<close> obtain u where "x = OptOther u" by (cases x) auto
    with x have "OptOther u \<in> set opts" by simp
    from find_is_other [OF this] True show ?thesis
      by (auto simp: extractRouteParameters_def extract_loop_eq)
  next
    case False
    then show ?thesis by (simp add: extract_valid)
  qed
  have B: ?B
  proof
    assume v: "\<not> list_ex is_other opts"
    let ?a = "last (ErrorActionContinue # opt_actions opts)"
    have e1: "extractRouteParameters opts = Inr (opt_filters opts, ?a)"
      using v by (rule extract_valid)
    have e2: "extractRouteParameters (map OptFilter (opt_filters opts) @ [OptErrorAction ?a])
                = Inr (opt_filters opts, ?a)"
      by (rule extract_canon)
    have d: "DeleteRoutes X opts w =
         DeleteRoutes X (map OptFilter (opt_filters opts) @ [OptErrorAction ?a]) w"
      by (simp only: DeleteRoutes_def e1 e2)
    have l: "opt_actions opts \<noteq> [] \<longrightarrow>
          extractRouteParameters opts = Inr (opt_filters opts, last (opt_actions opts))"
      using e1 by simp
    from e1 l d show "extractRouteParameters opts =
         Inr (opt_filters opts, last (ErrorActionContinue # opt_actions opts))
     \<and> (opt_actions opts \<noteq> [] \<longrightarrow>
          extractRouteParameters opts = Inr (opt_filters opts, last (opt_actions opts)))
     \<and> DeleteRoutes X opts w =
         DeleteRoutes X (map OptFilter (opt_filters opts)
                           @ [OptErrorAction (last (ErrorActionContinue # opt_actions opts))]) w"
      by (intro conjI)
  qed
  from A B show ?thesis by (intro conjI)
qed

theorem extractRouteParameters_last_action_wins_witness:
  "\<not> list_ex is_other [OptErrorAction ErrorActionContinue, OptFilter (WithMetric 5),
                        OptErrorAction ErrorActionStop, OptFilter (WithInterfaceIndex 7)]
   \<and> opt_actions [OptErrorAction ErrorActionContinue, OptFilter (WithMetric 5),
                   OptErrorAction ErrorActionStop, OptFilter (WithInterfaceIndex 7)] \<noteq> []
   \<and> extractRouteParameters
         [OptErrorAction ErrorActionContinue, OptFilter (WithMetric 5),
          OptErrorAction ErrorActionStop, OptFilter (WithInterfaceIndex 7)]
       = Inr ([WithMetric 5, WithInterfaceIndex 7], ErrorActionStop)"
proof -
  let ?opts = "[OptErrorAction ErrorActionContinue, OptFilter (WithMetric 5),
                OptErrorAction ErrorActionStop, OptFilter (WithInterfaceIndex 7)]"
  have v: "\<not> list_ex is_other ?opts" by simp
  have n: "opt_actions ?opts \<noteq> []" by simp
  note t = extractRouteParameters_last_action_wins
             [of ?opts, THEN conjunct2, rule_format, OF v, THEN conjunct2, THEN conjunct1,
              rule_format, OF n]
  have "extractRouteParameters ?opts = Inr ([WithMetric 5, WithInterfaceIndex 7], ErrorActionStop)"
    using t by simp
  with v n show ?thesis by (intro conjI)
qed

section \<open>The batch deletion\<close>

lemma delete_each_Cons:
  "delete_each X (r # rs) w =
     (fst (Route_Delete X r w) # fst (delete_each X rs (snd (Route_Delete X r w))),
      snd (delete_each X rs (snd (Route_Delete X r w))))"
  by (simp split: prod.splits)

lemma delete_loop_continue:
  "ea \<noteq> ErrorActionStop \<Longrightarrow>
   delete_loop X ea routes acc w =
     ((acc @ wrapped_failures routes (fst (delete_each X routes w)), None),
      snd (delete_each X routes w))"
proof (induction routes arbitrary: acc w)
  case Nil
  show ?case by simp
next
  case (Cons r rs)
  obtain res w1 where rd: "Route_Delete X r w = (res, w1)" by (cases "Route_Delete X r w")
  show ?case
  proof (cases res)
    case None
    with rd Cons show ?thesis by (simp add: delete_each_Cons del: delete_each.simps(2))
  next
    case (Some e)
    with rd Cons show ?thesis by (simp add: delete_each_Cons Let_def del: delete_each.simps(2))
  qed
qed

lemma length_delete_each: "length (fst (delete_each X routes w)) = length routes"
  by (induction routes arbitrary: w) (simp_all add: delete_each_Cons del: delete_each.simps(2))

lemma length_wrapped_failures:
  "length outs = length routes \<Longrightarrow>
   length (wrapped_failures routes outs) = length (filter (\<lambda>out. out \<noteq> None) outs)"
  by (induction routes outs rule: wrapped_failures.induct) simp_all

lemma calls_Route_Delete:
  "calls (snd (Route_Delete X r w)) = calls w @ [delete_call r]"
  by (simp add: Route_Delete_def sys_DeleteRoute_def delete_call_def split: prod.splits)

lemma os_Route_Delete:
  "os (snd (Route_Delete X r w)) =
     snd (LUID_DeleteRoute X (LUID (Interface r)) (Destination r) (NextHop r) (os w))"
  by (simp add: Route_Delete_def sys_DeleteRoute_def split: prod.splits)

lemma calls_delete_each:
  "calls (snd (delete_each X routes w)) = calls w @ map delete_call routes"
  by (induction routes arbitrary: w)
     (simp_all add: delete_each_Cons calls_Route_Delete del: delete_each.simps(2))

lemma delete_loop_skip_successes:
  "\<forall>out \<in> set (fst (delete_each X pre w)). out = None \<Longrightarrow>
   delete_loop X ea (pre @ rest) acc w = delete_loop X ea rest acc (snd (delete_each X pre w))"
proof (induction pre arbitrary: w)
  case Nil
  show ?case by simp
next
  case (Cons r rs)
  obtain res w1 where rd: "Route_Delete X r w = (res, w1)" by (cases "Route_Delete X r w")
  from Cons.prems rd have n: "res = None"
    and rest: "\<forall>out \<in> set (fst (delete_each X rs w1)). out = None"
    by (simp_all add: delete_each_Cons del: delete_each.simps(2))
  from Cons.IH [OF rest] rd n show ?case
    by (simp add: delete_each_Cons del: delete_each.simps(2))
qed

text \<open>
  The small system with LUID 2 locked and the table \<open>[row_a, row_b, row_c, row_d]\<close>:
  the listing has three routes, of which the second cannot be deleted.
\<close>

lemma demo_GetRoutes_all:
  "GetRoutes (table_env [eth0, eth1, tun0] [2]) [] (world0 [row_a, row_b, row_c, row_d]) =
     (Inr [enrich row_a (adapter_iface eth0), enrich row_c (adapter_iface eth1),
           enrich row_d (adapter_iface eth0)],
      \<lparr>os = [row_a, row_b, row_c, row_d],
       calls = [Call_GetAdaptersAddresses, Call_GetIPForwardTable2]\<rparr>)"
proof -
  note h = demo_queries [of "[eth0, eth1, tun0]" "[2]" "[row_a, row_b, row_c, row_d]"]
  show ?thesis
    unfolding GetRoutes_ok [OF h] demo_resolvable
    by (simp add: satisfies_all_def world0_def)
qed

lemma demo_delete_a:
  "Route_Delete (table_env [eth0, eth1, tun0] [2]) (enrich row_a (adapter_iface eth0))
     \<lparr>os = [row_a, row_b, row_c, row_d], calls = cs\<rparr> =
   (None, \<lparr>os = [row_b, row_c, row_d],
           calls = cs @ [delete_call (enrich row_a (adapter_iface eth0))]\<rparr>)"
  by (simp add: Route_Delete_def sys_DeleteRoute_def delete_call_def table_env_def
        enrich_def adapter_iface_def same_route_def eth0_def
        row_a_def row_b_def row_c_def row_d_def net10_def net192_def gw_def)

lemma demo_delete_c:
  "Route_Delete (table_env [eth0, eth1, tun0] [2]) (enrich row_c (adapter_iface eth1))
     \<lparr>os = [row_b, row_c, row_d], calls = cs\<rparr> =
   (Some (Errno 5), \<lparr>os = [row_b, row_c, row_d],
           calls = cs @ [delete_call (enrich row_c (adapter_iface eth1))]\<rparr>)"
  by (simp add: Route_Delete_def sys_DeleteRoute_def delete_call_def table_env_def
        enrich_def adapter_iface_def same_route_def eth1_def
        row_a_def row_b_def row_c_def row_d_def net10_def net192_def gw_def)

lemma demo_delete_d:
  "Route_Delete (table_env [eth0, eth1, tun0] [2]) (enrich row_d (adapter_iface eth0))
     \<lparr>os = [row_b, row_c, row_d], calls = cs\<rparr> =
   (None, \<lparr>os = [row_b, row_c],
           calls = cs @ [delete_call (enrich row_d (adapter_iface eth0))]\<rparr>)"
  by (simp add: Route_Delete_def sys_DeleteRoute_def delete_call_def table_env_def
        enrich_def adapter_iface_def same_route_def eth0_def
        row_a_def row_b_def row_c_def row_d_def net10_def net192_def gw_def)

lemma demo_delete_each_all:
  "delete_each (table_env [eth0, eth1, tun0] [2])
     [enrich row_a (adapter_iface eth0), enrich row_c (adapter_iface eth1),
      enrich row_d (adapter_iface eth0)]
     \<lparr>os = [row_a, row_b, row_c, row_d], calls = cs\<rparr> =
   ([None, Some (Errno 5), None],
    \<lparr>os = [row_b, row_c],
     calls = cs @ [delete_call (enrich row_a (adapter_iface eth0)),
                   delete_call (enrich row_c (adapter_iface eth1)),
                   delete_call (enrich row_d (adapter_iface eth0))]\<rparr>)"
  by (simp add: demo_delete_a demo_delete_c demo_delete_d)

lemma demo_delete_each_one:
  "delete_each (table_env [eth0, eth1, tun0] [2]) [enrich row_a (adapter_iface eth0)]
     \<lparr>os = [row_a, row_b, row_c, row_d], calls = cs\<rparr> =
   ([None], \<lparr>os = [row_b, row_c, row_d],
             calls = cs @ [delete_call (enrich row_a (adapter_iface eth0))]\<rparr>)"
  by (simp add: demo_delete_a)

lemma demo_delete_calls:
  "delete_call (enrich row_a (adapter_iface eth0)) =
     Call_DeleteRoute 1 (PrefixFrom (Addr4 0x0A000000) 8) (Addr4 0xC0A80101)"
  "delete_call (enrich row_c (adapter_iface eth1)) =
     Call_DeleteRoute 2 (PrefixFrom (Addr4 0xC0A80100) 24) (Addr4 0xC0A80101)"
  "delete_call (enrich row_d (adapter_iface eth0)) =
     Call_DeleteRoute 1 (PrefixFrom (Addr4 0xC0A80100) 24) (Addr4 0xC0A80101)"
  by (simp_all add: delete_call_def demo_route_a demo_route_c demo_route_d)

lemma wrapped_failures_fields:
  "wrapped_failures routes outs =
     List.map_filter
       (\<lambda>(r, out). map_option
          (\<lambda>d. Errorf ''failed to delete route (dest: %s, iface: %s): %w''
                 [ArgPrefix (Destination r), ArgString (Alias (Interface r))] (Some d))
          out)
       (zip routes outs)"
  by (induction routes outs rule: wrapped_failures.induct)
     (simp_all add: wrap_delete_error_def)

text \<open>
  C2. Let the options parse to filters \<open>F\<close> and a policy other than
  \<open>ErrorActionStop\<close> (\<open>ErrorActionContinue\<close>, the default), let the listing return
  \<open>routes\<close>, and let \<open>outs\<close> be the outcomes of deleting them one after the other. Then
  \<open>DeleteRoutes\<close> returns a nil error, whatever the number of failures, and as partial
  errors one entry for each failed deletion, in order: the error
  \<open>failed to delete route (dest: %s, iface: %s): %w\<close> formatted with the destination
  of the route and the alias of its interface, and wrapping the failure of that deletion.
  There are as many entries as failed deletions.
\<close>

theorem DeleteRoutes_continue_collects:
  assumes "extractRouteParameters opts = Inr (F, ea)"
    and "ea \<noteq> ErrorActionStop"
    and "GetRoutes X F w = (Inr routes, w1)"
    and "delete_each X routes w1 = (outs, w2)"
  shows "\<exists>errs.
           errs =
             List.map_filter
               (\<lambda>(r, out). map_option
                  (\<lambda>d. Errorf ''failed to delete route (dest: %s, iface: %s): %w''
                         [ArgPrefix (Destination r), ArgString (Alias (Interface r))]
                         (Some d))
                  out)
               (zip routes outs)
         \<and> DeleteRoutes X opts w = ((errs, None), w2)
         \<and> length outs = length routes
         \<and> length errs = length (filter (\<lambda>out. out \<noteq> None) outs)"
proof -
  let ?errs = "wrapped_failures routes outs"
  have B: "length outs = length routes"
    using length_delete_each [of X routes w1] assms(4) by simp
  have C: "length ?errs = length (filter (\<lambda>out. out \<noteq> None) outs)"
    using B by (rule length_wrapped_failures)
  have loop: "delete_loop X ea routes [] w1 = ((?errs, None), w2)"
    using delete_loop_continue [OF assms(2), of X routes "[]" w1] assms(4) by simp
  have A: "DeleteRoutes X opts w = ((?errs, None), w2)"
  proof (cases routes)
    case Nil
    with assms(4) have "outs = []" "w2 = w1" by simp_all
    with Nil assms(1,3) show ?thesis by (simp add: DeleteRoutes_def)
  next
    case (Cons r rs)
    with assms(1,3) loop show ?thesis by (simp add: DeleteRoutes_def)
  qed
  from wrapped_failures_fields [of routes outs] A B C
  show ?thesis by (intro exI [of _ ?errs] conjI)
qed

theorem DeleteRoutes_continue_collects_witness:
  "extractRouteParameters [] = Inr ([], ErrorActionContinue)
   \<and> ErrorActionContinue \<noteq> ErrorActionStop
   \<and> GetRoutes (table_env [eth0, eth1, tun0] [2]) [] (world0 [row_a, row_b, row_c, row_d]) =
       (Inr [\<lparr>Destination = PrefixFrom (Addr4 0x0A000000) 8, NextHop = Addr4 0xC0A80101,
              Interface = \<lparr>Index = 7, LUID = 1, Alias = ''Ethernet'',
                           Description = ''Realtek PCIe GbE Family Controller''\<rparr>,
              Metric = 5, Protocol = 3, Origin = 0\<rparr>,
             \<lparr>Destination = PrefixFrom (Addr4 0xC0A80100) 24, NextHop = Addr4 0xC0A80101,
              Interface = \<lparr>Index = 0, LUID = 2, Alias = ''ETHERNET'',
                           Description = ''Intel I210''\<rparr>,
              Metric = 5, Protocol = 3, Origin = 0\<rparr>,
             \<lparr>Destination = PrefixFrom (Addr4 0xC0A80100) 24, NextHop = Addr4 0xC0A80101,
              Interface = \<lparr>Index = 7, LUID = 1, Alias = ''Ethernet'',
                           Description = ''Realtek PCIe GbE Family Controller''\<rparr>,
              Metric = 20, Protocol = 3, Origin = 0\<rparr>],
        \<lparr>os = [row_a, row_b, row_c, row_d],
         calls = [Call_GetAdaptersAddresses, Call_GetIPForwardTable2]\<rparr>)
   \<and> DeleteRoutes (table_env [eth0, eth1, tun0] [2]) [] (world0 [row_a, row_b, row_c, row_d]) =
       (([Errorf ''failed to delete route (dest: %s, iface: %s): %w''
            [ArgPrefix (PrefixFrom (Addr4 0xC0A80100) 24), ArgString ''ETHERNET'']
            (Some (Errno 5))],
         None),
        \<lparr>os = [row_b, row_c],
         calls = [Call_GetAdaptersAddresses, Call_GetIPForwardTable2,
                  Call_DeleteRoute 1 (PrefixFrom (Addr4 0x0A000000) 8) (Addr4 0xC0A80101),
                  Call_DeleteRoute 2 (PrefixFrom (Addr4 0xC0A80100) 24) (Addr4 0xC0A80101),
                  Call_DeleteRoute 1 (PrefixFrom (Addr4 0xC0A80100) 24) (Addr4 0xC0A80101)]\<rparr>)"
proof -
  have e: "extractRouteParameters [] = Inr ([], ErrorActionContinue)"
    by (simp add: extractRouteParameters_def)
  have n: "ErrorActionContinue \<noteq> ErrorActionStop"
    by (simp add: ErrorActionContinue_def ErrorActionStop_def)
  from DeleteRoutes_continue_collects
      [OF e n demo_GetRoutes_all
          demo_delete_each_all [of "[Call_GetAdaptersAddresses, Call_GetIPForwardTable2]"]]
  obtain errs where
    E: "errs =
          List.map_filter
            (\<lambda>(r, out). map_option
               (\<lambda>d. Errorf ''failed to delete route (dest: %s, iface: %s): %w''
                      [ArgPrefix (Destination r), ArgString (Alias (Interface r))] (Some d))
               out)
            (zip [enrich row_a (adapter_iface eth0), enrich row_c (adapter_iface eth1),
                  enrich row_d (adapter_iface eth0)]
                 [None, Some (Errno 5), None])"
    and D: "DeleteRoutes (table_env [eth0, eth1, tun0] [2]) []
              (world0 [row_a, row_b, row_c, row_d]) =
            ((errs, None),
             \<lparr>os = [row_b, row_c],
              calls = [Call_GetAdaptersAddresses, Call_GetIPForwardTable2]
                      @ [delete_call (enrich row_a (adapter_iface eth0)),
                         delete_call (enrich row_c (adapter_iface eth1)),
                         delete_call (enrich row_d (adapter_iface eth0))]\<rparr>)"
    by (elim exE conjE)
  from E have E': "errs = [Errorf ''failed to delete route (dest: %s, iface: %s): %w''
            [ArgPrefix (PrefixFrom (Addr4 0xC0A80100) 24), ArgString ''ETHERNET'']
            (Some (Errno 5))]"
    by (simp add: demo_route_c)
  have d: "DeleteRoutes (table_env [eth0, eth1, tun0] [2]) []
             (world0 [row_a, row_b, row_c, row_d]) =
       (([Errorf ''failed to delete route (dest: %s, iface: %s): %w''
            [ArgPrefix (PrefixFrom (Addr4 0xC0A80100) 24), ArgString ''ETHERNET'']
            (Some (Errno 5))],
         None),
        \<lparr>os = [row_b, row_c],
         calls = [Call_GetAdaptersAddresses, Call_GetIPForwardTable2,
                  Call_DeleteRoute 1 (PrefixFrom (Addr4 0x0A000000) 8) (Addr4 0xC0A80101),
                  Call_DeleteRoute 2 (PrefixFrom (Addr4 0xC0A80100) 24) (Addr4 0xC0A80101),
                  Call_DeleteRoute 1 (PrefixFrom (Addr4 0xC0A80100) 24) (Addr4 0xC0A80101)]\<rparr>)"
    using D by (simp add: E' demo_delete_calls)
  from e n demo_GetRoutes_all [unfolded demo_route_a demo_route_c demo_route_d] d
  show ?thesis by (intro conjI)
qed

text \<open>
  C3. Let the options parse to filters \<open>F\<close> and \<open>ErrorActionStop\<close>, let the listing
  return \<open>pre @ r # post\<close>, let every deletion of \<open>pre\<close> succeed and the deletion of
  \<open>r\<close> fail with \<open>e\<close>. Then \<open>DeleteRoutes\<close> returns no partial errors and, as its
  error, the error \<open>failed to delete route (dest: %s, iface: %s): %w\<close> formatted with
  the destination of \<open>r\<close> and the alias of its interface, and wrapping \<open>e\<close>. The calls
  made after the listing are the deletions of \<open>pre\<close> and of \<open>r\<close> and nothing else: no
  route of \<open>post\<close> is attempted, and the system is left as the failed deletion of \<open>r\<close>
  left it, with the routes of \<open>pre\<close> deleted.
\<close>

theorem DeleteRoutes_stop_on_first_error:
  assumes "extractRouteParameters opts = Inr (F, ErrorActionStop)"
    and "GetRoutes X F w = (Inr (pre @ r # post), w1)"
    and "delete_each X pre w1 = (outs, w2)"
    and "\<forall>out \<in> set outs. out = None"
    and "Route_Delete X r w2 = (Some e, w3)"
  shows "DeleteRoutes X opts w =
           (([], Some (Errorf ''failed to delete route (dest: %s, iface: %s): %w''
                         [ArgPrefix (Destination r), ArgString (Alias (Interface r))]
                         (Some e))), w3)
       \<and> calls w3 = calls w1 @ map delete_call (pre @ [r])
       \<and> os w3 = snd (LUID_DeleteRoute X (LUID (Interface r)) (Destination r) (NextHop r) (os w2))"
  (is "?A \<and> ?B \<and> ?C")
proof -
  have skip: "delete_loop X ErrorActionStop (pre @ r # post) [] w1 =
              delete_loop X ErrorActionStop (r # post) [] w2"
    using delete_loop_skip_successes [of X pre w1 ErrorActionStop "r # post" "[]"] assms(3,4)
    by simp
  have stop: "delete_loop X ErrorActionStop (r # post) [] w2 =
              (([], Some (wrap_delete_error r e)), w3)"
    using assms(5) by (simp add: Let_def)
  have A: ?A
    using assms(1,2) skip stop by (simp add: DeleteRoutes_def wrap_delete_error_def)
  have c2: "calls w2 = calls w1 @ map delete_call pre"
    using calls_delete_each [of X pre w1] assms(3) by simp
  have c3: "calls w3 = calls w2 @ [delete_call r]"
    using calls_Route_Delete [of X r w2] assms(5) by simp
  have B: ?B using c2 c3 by simp
  have C: ?C using os_Route_Delete [of X r w2] assms(5) by simp
  from A B C show ?thesis by (intro conjI)
qed

theorem DeleteRoutes_stop_on_first_error_witness:
  "extractRouteParameters [OptErrorAction ErrorActionStop] = Inr ([], ErrorActionStop)
   \<and> GetRoutes (table_env [eth0, eth1, tun0] [2]) [] (world0 [row_a, row_b, row_c, row_d]) =
       (Inr ([\<lparr>Destination = PrefixFrom (Addr4 0x0A000000) 8, NextHop = Addr4 0xC0A80101,
               Interface = \<lparr>Index = 7, LUID = 1, Alias = ''Ethernet'',
                            Description = ''Realtek PCIe GbE Family Controller''\<rparr>,
               Metric = 5, Protocol = 3, Origin = 0\<rparr>]
             @ \<lparr>Destination = PrefixFrom (Addr4 0xC0A80100) 24, NextHop = Addr4 0xC0A80101,
                Interface = \<lparr>Index = 0, LUID = 2, Alias = ''ETHERNET'',
                             Description = ''Intel I210''\<rparr>,
                Metric = 5, Protocol = 3, Origin = 0\<rparr>
             # [\<lparr>Destination = PrefixFrom (Addr4 0xC0A80100) 24, NextHop = Addr4 0xC0A80101,
                 Interface = \<lparr>Index = 7, LUID = 1, Alias = ''Ethernet'',
                              Description = ''Realtek PCIe GbE Family Controller''\<rparr>,
                 Metric = 20, Protocol = 3, Origin = 0\<rparr>]),
        \<lparr>os = [row_a, row_b, row_c, row_d],
         calls = [Call_GetAdaptersAddresses, Call_GetIPForwardTable2]\<rparr>)
   \<and> DeleteRoutes (table_env [eth0, eth1, tun0] [2]) [OptErrorAction ErrorActionStop]
         (world0 [row_a, row_b, row_c, row_d]) =
       (([], Some (Errorf ''failed to delete route (dest: %s, iface: %s): %w''
                     [ArgPrefix (PrefixFrom (Addr4 0xC0A80100) 24), ArgString ''ETHERNET'']
                     (Some (Errno 5)))),
        \<lparr>os = [row_b, row_c, row_d],
         calls = [Call_GetAdaptersAddresses, Call_GetIPForwardTable2,
                  Call_DeleteRoute 1 (PrefixFrom (Addr4 0x0A000000) 8) (Addr4 0xC0A80101),
                  Call_DeleteRoute 2 (PrefixFrom (Addr4 0xC0A80100) 24)
                    (Addr4 0xC0A80101)]\<rparr>)"
proof -
  have e: "extractRouteParameters [OptErrorAction ErrorActionStop] = Inr ([], ErrorActionStop)"
    by (simp add: extractRouteParameters_def)
  have g: "GetRoutes (table_env [eth0, eth1, tun0] [2]) []
             (world0 [row_a, row_b, row_c, row_d]) =
       (Inr ([enrich row_a (adapter_iface eth0)] @ enrich row_c (adapter_iface eth1)
               # [enrich row_d (adapter_iface eth0)]),
        \<lparr>os = [row_a, row_b, row_c, row_d],
         calls = [Call_GetAdaptersAddresses, Call_GetIPForwardTable2]\<rparr>)"
    using demo_GetRoutes_all by simp
  have a: "\<forall>out \<in> set [None :: error option]. out = None" by simp
  note t = DeleteRoutes_stop_on_first_error
      [OF e g demo_delete_each_one [of "[Call_GetAdaptersAddresses, Call_GetIPForwardTable2]"]
          a demo_delete_c, THEN conjunct1]
  have d: "DeleteRoutes (table_env [eth0, eth1, tun0] [2]) [OptErrorAction ErrorActionStop]
         (world0 [row_a, row_b, row_c, row_d]) =
       (([], Some (Errorf ''failed to delete route (dest: %s, iface: %s): %w''
                     [ArgPrefix (PrefixFrom (Addr4 0xC0A80100) 24), ArgString ''ETHERNET'']
                     (Some (Errno 5)))),
        \<lparr>os = [row_b, row_c, row_d],
         calls = [Call_GetAdaptersAddresses, Call_GetIPForwardTable2,
                  Call_DeleteRoute 1 (PrefixFrom (Addr4 0x0A000000) 8) (Addr4 0xC0A80101),
                  Call_DeleteRoute 2 (PrefixFrom (Addr4 0xC0A80100) 24)
                    (Addr4 0xC0A80101)]\<rparr>)"
    using t [unfolded demo_delete_calls] by (simp add: demo_route_c)
  from e g [unfolded demo_route_a demo_route_c demo_route_d] d
  show ?thesis by (intro conjI)
qed

end
